theory Spec2Isabelle
  imports Complex_Main "HOL-Library.Multiset" "HOL-Library.AList" "HOL-Library.Option_ord"
begin

section \<open>Documents and Python values\<close>

text \<open>
  Documents of the record store are nested Python values. Dictionaries are association
  lists (the first binding of a key is the live one), floats are idealised as reals, and
  strings are ASCII text.
\<close>

datatype json =
    JNull
  | JBool bool
  | JInt int
  | JReal real
  | JStr string
  | JDate int
  | JOid nat
  | JList "json list"
  | JObj "(string \<times> json) list"

datatype py_error = AttributeError | KeyError | TypeError | ValueError | IndexError | DuplicateKeyError

definition bnd :: "py_error + 'a \<Rightarrow> ('a \<Rightarrow> py_error + 'b) \<Rightarrow> py_error + 'b" where
  "bnd m f = (case m of Inl e \<Rightarrow> Inl e | Inr v \<Rightarrow> f v)"

text \<open>Python truthiness (\<open>if x\<close>, \<open>not x\<close>, \<open>bool(x)\<close>).\<close>

fun truthy :: "json \<Rightarrow> bool" where
  "truthy JNull = False"
| "truthy (JBool b) = b"
| "truthy (JInt i) = (i \<noteq> 0)"
| "truthy (JReal r) = (r \<noteq> 0)"
| "truthy (JStr s) = (s \<noteq> [])"
| "truthy (JDate t) = True"
| "truthy (JOid n) = True"
| "truthy (JList xs) = (xs \<noteq> [])"
| "truthy (JObj kvs) = (kvs \<noteq> [])"

text \<open>\<open>x.get(k, d)\<close>: only a dict has \<open>get\<close>.\<close>

fun dict_get :: "json \<Rightarrow> string \<Rightarrow> json \<Rightarrow> py_error + json" where
  "dict_get (JObj kvs) k d = Inr (case map_of kvs k of None \<Rightarrow> d | Some v \<Rightarrow> v)"
| "dict_get _ k d = Inl AttributeError"

text \<open>\<open>x[k]\<close> with a string key.\<close>

fun getitem :: "json \<Rightarrow> string \<Rightarrow> py_error + json" where
  "getitem (JObj kvs) k = (case map_of kvs k of None \<Rightarrow> Inl KeyError | Some v \<Rightarrow> Inr v)"
| "getitem _ k = Inl TypeError"

text \<open>\<open>x[k] = v\<close> on a dict.\<close>

fun setitem :: "json \<Rightarrow> string \<Rightarrow> json \<Rightarrow> py_error + json" where
  "setitem (JObj kvs) k v = Inr (JObj (AList.update k v kvs))"
| "setitem _ k v = Inl TypeError"

text \<open>\<open>for r in x\<close>: a list gives its elements, a dict its keys, a string its characters.\<close>

fun py_iter :: "json \<Rightarrow> py_error + json list" where
  "py_iter (JList xs) = Inr xs"
| "py_iter (JObj kvs) = Inr (map (\<lambda>kv. JStr (fst kv)) kvs)"
| "py_iter (JStr s) = Inr (map (\<lambda>c. JStr [c]) s)"
| "py_iter _ = Inl TypeError"

text \<open>Numbers compare by value across \<open>bool\<close>, \<open>int\<close> and \<open>float\<close>; so do dict keys.\<close>

fun num_val :: "json \<Rightarrow> real option" where
  "num_val (JBool b) = Some (if b then 1 else 0)"
| "num_val (JInt i) = Some (of_int i)"
| "num_val (JReal r) = Some r"
| "num_val _ = None"

definition py_eq :: "json \<Rightarrow> json \<Rightarrow> bool" where
  "py_eq a b = (case (num_val a, num_val b) of
                  (Some x, Some y) \<Rightarrow> x = y
                | (None, None) \<Rightarrow> a = b
                | _ \<Rightarrow> False)"

fun hashable :: "json \<Rightarrow> bool" where
  "hashable (JList xs) = False"
| "hashable (JObj kvs) = False"
| "hashable _ = True"

subsection \<open>\<open>int(s)\<close> on a string\<close>

definition is_space :: "char \<Rightarrow> bool" where
  "is_space c = (let n = (of_char c :: nat) in (9 \<le> n \<and> n \<le> 13) \<or> n = 32)"

definition is_digit :: "char \<Rightarrow> bool" where
  "is_digit c = (let n = (of_char c :: nat) in 48 \<le> n \<and> n \<le> 57)"

definition digit_val :: "char \<Rightarrow> int" where
  "digit_val c = int (of_char c) - 48"

definition strip :: "string \<Rightarrow> string" where
  "strip s = rev (dropWhile is_space (rev (dropWhile is_space s)))"

text \<open>
  Digits may be grouped by single underscores, never leading, trailing or doubled. (The
  interpreter's limit on the number of digits is not modelled.)
\<close>

fun digits_ok :: "string \<Rightarrow> bool" where
  "digits_ok [] = False"
| "digits_ok [c] = is_digit c"
| "digits_ok (c # d # cs) =
     (is_digit c \<and> (if d = CHR ''_'' then digits_ok cs else digits_ok (d # cs)))"

definition digits_value :: "string \<Rightarrow> int" where
  "digits_value s = foldl (\<lambda>a c. 10 * a + digit_val c) 0 (filter (\<lambda>c. c \<noteq> CHR ''_'') s)"

definition unsigned_int :: "string \<Rightarrow> py_error + int" where
  "unsigned_int s = (if digits_ok s then Inr (digits_value s) else Inl ValueError)"

definition py_int :: "string \<Rightarrow> py_error + int" where
  "py_int s0 =
     (case strip s0 of
        [] \<Rightarrow> Inl ValueError
      | c # cs \<Rightarrow>
          if c = CHR ''-'' then bnd (unsigned_int cs) (\<lambda>v. Inr (- v))
          else if c = CHR ''+'' then unsigned_int cs
          else unsigned_int (c # cs))"

section \<open>Schema normalizer and aggregator (\<open>_get_stats_helper\<close>)\<close>

record group =
  g_count :: nat
  g_response_checks :: "json list"
  g_survey_results :: "json list"

type_synonym stats_key = "json \<times> json \<times> json"
type_synonym raw_stats = "(stats_key \<times> group) list"

definition key_eq :: "stats_key \<Rightarrow> stats_key \<Rightarrow> bool" where
  "key_eq a b = (case a of (p, c, s) \<Rightarrow> case b of (p', c', s') \<Rightarrow>
                   py_eq p p' \<and> py_eq c c' \<and> py_eq s s')"

definition key_hashable :: "stats_key \<Rightarrow> bool" where
  "key_hashable k = (case k of (p, c, s) \<Rightarrow> hashable p \<and> hashable c \<and> hashable s)"

text \<open>\<open>raw_stats\<close> keeps insertion order, as a Python 3 dict does.\<close>

fun rs_lookup :: "raw_stats \<Rightarrow> stats_key \<Rightarrow> group option" where
  "rs_lookup [] k = None"
| "rs_lookup ((k', g) # rs) k = (if key_eq k' k then Some g else rs_lookup rs k)"

fun rs_modify :: "(group \<Rightarrow> group) \<Rightarrow> stats_key \<Rightarrow> raw_stats \<Rightarrow> raw_stats" where
  "rs_modify f k [] = []"
| "rs_modify f k ((k', g) # rs) =
     (if key_eq k' k then (k', f g) # rs else (k', g) # rs_modify f k rs)"

definition empty_group :: group where
  "empty_group = \<lparr>g_count = 0, g_response_checks = [], g_survey_results = []\<rparr>"

text \<open>\<open>if key not in raw_stats: raw_stats[key] = {...}\<close>; hashing the key may fail.\<close>

definition rs_ensure :: "stats_key \<Rightarrow> raw_stats \<Rightarrow> py_error + raw_stats" where
  "rs_ensure k rs =
     (if \<not> key_hashable k then Inl TypeError
      else case rs_lookup rs k of
             None \<Rightarrow> Inr (rs @ [(k, empty_group)])
           | Some g \<Rightarrow> Inr rs)"

text \<open>The condition of the two comprehensions, evaluated left to right with short circuit.\<close>

definition is_response_check :: "json \<Rightarrow> py_error + bool" where
  "is_response_check r =
     bnd (dict_get r ''msg'' JNull) (\<lambda>m.
       if m \<noteq> JStr ''ServerResponseCheck'' then Inr False
       else bnd (dict_get r ''data'' JNull) (\<lambda>d.
         bnd (dict_get d ''responded'' JNull) (\<lambda>resp.
           if \<not> truthy resp then Inr False
           else bnd (dict_get r ''data'' JNull) (\<lambda>d2.
             bnd (dict_get d2 ''responseTime'' JNull) (\<lambda>rt. Inr (truthy rt))))))"

fun select_checks :: "json list \<Rightarrow> py_error + json list" where
  "select_checks [] = Inr []"
| "select_checks (r # rs) =
     bnd (is_response_check r) (\<lambda>b.
       if b then bnd (getitem r ''data'') (\<lambda>d. bnd (select_checks rs) (\<lambda>ds. Inr (d # ds)))
       else select_checks rs)"

text \<open>The coercion loop of the legacy path, for one entry.\<close>

definition coerce_check :: "json \<Rightarrow> py_error + json" where
  "coerce_check r =
     bnd (getitem r ''responded'') (\<lambda>resp.
       bnd (case resp of JStr s \<Rightarrow> setitem r ''responded'' (JBool (s = ''Yes'')) | _ \<Rightarrow> Inr r) (\<lambda>r1.
         bnd (getitem r1 ''responseTime'') (\<lambda>rt.
           case rt of
             JStr s \<Rightarrow> bnd (py_int s) (\<lambda>i. setitem r1 ''responseTime'' (JInt i))
           | _ \<Rightarrow> Inr r1)))"

fun coerce_checks :: "json list \<Rightarrow> py_error + json list" where
  "coerce_checks [] = Inr []"
| "coerce_checks (r # rs) =
     bnd (coerce_check r) (\<lambda>r'. bnd (coerce_checks rs) (\<lambda>rs'. Inr (r' # rs')))"

definition empty_dict :: json where
  "empty_dict = JObj []"

text \<open>Body of the first loop (platform android, version 1).\<close>

definition legacy_ids :: "json \<Rightarrow> py_error + (json \<times> json)" where
  "legacy_ids rec =
     bnd (dict_get rec ''SystemInformation'' empty_dict) (\<lambda>si.
     bnd (dict_get si ''psiphonEmbeddedValues'' empty_dict) (\<lambda>ev.
     bnd (dict_get ev ''PROPAGATION_CHANNEL_ID'' JNull) (\<lambda>propagation_channel_id.
     bnd (dict_get rec ''SystemInformation'' empty_dict) (\<lambda>si2.
     bnd (dict_get si2 ''psiphonEmbeddedValues'' empty_dict) (\<lambda>ev2.
     bnd (dict_get ev2 ''SPONSOR_ID'' JNull) (\<lambda>sponsor_id.
       Inr (propagation_channel_id, sponsor_id)))))))"

definition legacy_step :: "raw_stats \<Rightarrow> json \<Rightarrow> py_error + raw_stats" where
  "legacy_step raw rec =
     bnd (legacy_ids rec) (\<lambda>(propagation_channel_id, sponsor_id).
       if \<not> truthy propagation_channel_id \<or> \<not> truthy sponsor_id then Inr raw
       else
         bnd (dict_get rec ''DiagnosticHistory'' (JList [])) (\<lambda>dh.
         bnd (py_iter dh) (\<lambda>hist.
         bnd (select_checks hist) (\<lambda>selected.
         bnd (coerce_checks selected) (\<lambda>response_checks.
         bnd (rs_ensure (JStr ''android'', propagation_channel_id, sponsor_id) raw) (\<lambda>raw1.
           Inr (rs_modify
                  (\<lambda>g. g\<lparr>g_response_checks := g_response_checks g @ response_checks,
                          g_count := g_count g + 1\<rparr>)
                  (JStr ''android'', propagation_channel_id, sponsor_id) raw1)))))))"

text \<open>Body of the second loop (android above version 2, windows above version 1).\<close>

definition current_ids :: "json \<Rightarrow> py_error + (json \<times> json)" where
  "current_ids rec =
     bnd (dict_get rec ''DiagnosticInfo'' empty_dict) (\<lambda>di.
     bnd (dict_get di ''SystemInformation'' empty_dict) (\<lambda>si.
     bnd (dict_get si ''PsiphonInfo'' empty_dict) (\<lambda>pi.
     bnd (dict_get pi ''PROPAGATION_CHANNEL_ID'' JNull) (\<lambda>propagation_channel_id.
     bnd (dict_get rec ''DiagnosticInfo'' empty_dict) (\<lambda>di2.
     bnd (dict_get di2 ''SystemInformation'' empty_dict) (\<lambda>si2.
     bnd (dict_get si2 ''PsiphonInfo'' empty_dict) (\<lambda>pi2.
     bnd (dict_get pi2 ''SPONSOR_ID'' JNull) (\<lambda>sponsor_id.
       Inr (propagation_channel_id, sponsor_id)))))))))"

definition survey_of :: "json \<Rightarrow> py_error + json list" where
  "survey_of rec =
     bnd (dict_get rec ''Feedback'' empty_dict) (\<lambda>fb.
     bnd (dict_get fb ''Survey'' empty_dict) (\<lambda>sv.
     bnd (dict_get sv ''results'' (JList [])) (\<lambda>res.
       Inr (case res of JList xs \<Rightarrow> xs | _ \<Rightarrow> []))))"

definition current_step :: "json \<Rightarrow> raw_stats \<Rightarrow> json \<Rightarrow> py_error + raw_stats" where
  "current_step platform raw rec =
     bnd (current_ids rec) (\<lambda>(propagation_channel_id, sponsor_id).
       if \<not> truthy propagation_channel_id \<or> \<not> truthy sponsor_id then Inr raw
       else
         bnd (dict_get rec ''DiagnosticInfo'' empty_dict) (\<lambda>di.
         bnd (dict_get di ''DiagnosticHistory'' (JList [])) (\<lambda>dh.
         bnd (py_iter dh) (\<lambda>hist.
         bnd (survey_of rec) (\<lambda>survey_results.
         bnd (rs_ensure (platform, propagation_channel_id, sponsor_id) raw) (\<lambda>raw1.
         bnd (select_checks hist) (\<lambda>response_checks.
           Inr (rs_modify
                  (\<lambda>g. g\<lparr>g_response_checks := g_response_checks g @ response_checks,
                          g_survey_results := g_survey_results g @ survey_results,
                          g_count := g_count g + 1\<rparr>)
                  (platform, propagation_channel_id, sponsor_id) raw1))))))))"

text \<open>A \<open>for rec in cur\<close> loop: the first exception ends the whole function.\<close>

fun for_each :: "('s \<Rightarrow> 'a \<Rightarrow> py_error + 's) \<Rightarrow> 's \<Rightarrow> 'a list \<Rightarrow> py_error + 's" where
  "for_each f s [] = Inr s"
| "for_each f s (x # xs) = bnd (f s x) (\<lambda>s'. for_each f s' xs)"

subsection \<open>The queries of the record store\<close>

definition field :: "json \<Rightarrow> string \<Rightarrow> json option" where
  "field d k = (case d of JObj kvs \<Rightarrow> map_of kvs k | _ \<Rightarrow> None)"

text \<open>The value a path of field names reaches through embedded documents.\<close>

fun path_value :: "json \<Rightarrow> string list \<Rightarrow> json option" where
  "path_value d [] = Some d"
| "path_value d (k # ks) = (case field d k of None \<Rightarrow> None | Some v \<Rightarrow> path_value v ks)"

text \<open>
  An equality filter of the document store: the stored value is the queried one, or an
  array that holds it. The store compares numbers by value, whether integer or double,
  also inside arrays and embedded documents; booleans are not numbers to it.
\<close>

fun bson_norm :: "json \<Rightarrow> json" where
  "bson_norm (JInt i) = JReal (of_int i)"
| "bson_norm (JList xs) = JList (map bson_norm xs)"
| "bson_norm (JObj kvs) = JObj (map (map_prod id bson_norm) kvs)"
| "bson_norm v = v"

definition bson_eq :: "json \<Rightarrow> json \<Rightarrow> bool" where
  "bson_eq a b = (bson_norm a = bson_norm b)"

definition match_eq :: "json \<Rightarrow> json \<Rightarrow> bool" where
  "match_eq v q = (bson_eq v q \<or> (case v of JList xs \<Rightarrow> list_ex (\<lambda>x. bson_eq x q) xs | _ \<Rightarrow> False))"

text \<open>
  The values a dotted path reaches in a document: through embedded documents, and through
  the embedded documents of an array.
\<close>

fun path_values :: "json \<Rightarrow> string list \<Rightarrow> json list" where
  "path_values d [] = [d]"
| "path_values d (k # ks) =
     (case d of
        JObj kvs \<Rightarrow> (case map_of kvs k of None \<Rightarrow> [] | Some v \<Rightarrow> path_values v ks)
      | JList xs \<Rightarrow>
          concat (map (\<lambda>x. case x of
                              JObj kvs \<Rightarrow> (case map_of kvs k of None \<Rightarrow> [] | Some v \<Rightarrow> path_values v ks)
                            | _ \<Rightarrow> []) xs)
      | _ \<Rightarrow> [])"

definition matches :: "string list \<Rightarrow> json \<Rightarrow> json \<Rightarrow> bool" where
  "matches path q d = list_ex (\<lambda>v. match_eq v q) (path_values d path)"

text \<open>A comparison of the document store holds of a value, or of an element of an array.\<close>

definition match_pred :: "(json \<Rightarrow> bool) \<Rightarrow> json \<Rightarrow> bool" where
  "match_pred P v = (P v \<or> (case v of JList xs \<Rightarrow> list_ex P xs | _ \<Rightarrow> False))"

text \<open>
  \<open>find\<close> on the \<open>diagnostic_info\<close> collection, for the three filters the helper uses:
  \<open>datetime\<close> later than \<open>since_time\<close>, \<open>Metadata.platform\<close> equal to a string and
  \<open>Metadata.version\<close> a number satisfying a comparison.
\<close>

definition doc_matches :: "int \<Rightarrow> string \<Rightarrow> (real \<Rightarrow> bool) \<Rightarrow> json \<Rightarrow> bool" where
  "doc_matches since_time platform vpred doc =
     (list_ex (match_pred (\<lambda>x. case x of JDate t \<Rightarrow> since_time < t | _ \<Rightarrow> False))
        (path_values doc [''datetime''])
      \<and> matches [''Metadata'', ''platform''] (JStr platform) doc
      \<and> list_ex (match_pred (\<lambda>x. case x of
                                     JInt v \<Rightarrow> vpred (of_int v)
                                   | JReal v \<Rightarrow> vpred v
                                   | _ \<Rightarrow> False))
          (path_values doc [''Metadata'', ''version'']))"

definition find_diagnostic :: "json list \<Rightarrow> int \<Rightarrow> string \<Rightarrow> (real \<Rightarrow> bool) \<Rightarrow> json list" where
  "find_diagnostic db since_time platform vpred = filter (doc_matches since_time platform vpred) db"

subsection \<open>Statistics of one group\<close>

text \<open>
  What numpy makes of the list it is given, in exact arithmetic: numbers (\<open>bool\<close>,
  \<open>int\<close>, \<open>float\<close>) and nested lists of them that all have one shape become an array,
  whose elements the reductions read in order; any other element, and lists of unequal
  shapes, are refused. An array without elements has no mean in exact arithmetic and is
  refused as well.
\<close>

fun np_shape :: "json \<Rightarrow> nat list option" where
  "np_shape (JList xs) =
     (case map np_shape xs of
        [] \<Rightarrow> Some [0]
      | s # ss \<Rightarrow>
          (case s of
             None \<Rightarrow> None
           | Some sh \<Rightarrow>
               if list_all (\<lambda>t. t = Some sh) ss then Some (Suc (length ss) # sh) else None))"
| "np_shape v = (if num_val v = None then None else Some [])"

fun np_leaves :: "json \<Rightarrow> json list" where
  "np_leaves (JList xs) = concat (map np_leaves xs)"
| "np_leaves v = [v]"

definition np_array :: "json list \<Rightarrow> py_error + real list" where
  "np_array xs =
     (case np_shape (JList xs) of
        None \<Rightarrow> Inl TypeError
      | Some sh \<Rightarrow>
          if np_leaves (JList xs) = [] then Inl ValueError
          else Inr (map (\<lambda>v. the (num_val v)) (np_leaves (JList xs))))"

text \<open>An array of booleans only: \<open>numpy.percentile\<close> refuses to subtract its elements.\<close>

definition all_bool :: "json list \<Rightarrow> bool" where
  "all_bool xs = list_all (\<lambda>v. case v of JBool b \<Rightarrow> True | _ \<Rightarrow> False) (np_leaves (JList xs))"

definition np_mean :: "real list \<Rightarrow> real" where
  "np_mean xs = sum_list xs / real (length xs)"

definition np_median :: "real list \<Rightarrow> real" where
  "np_median xs =
     (let s = sort xs; n = length s
      in if odd n then s ! (n div 2) else (s ! (n div 2 - 1) + s ! (n div 2)) / 2)"

definition np_std :: "real list \<Rightarrow> real" where
  "np_std xs = sqrt (sum_list (map (\<lambda>x. (x - np_mean xs)\<^sup>2) xs) / real (length xs))"

text \<open>
  Modelled from the spec: \<open>numpy.percentile\<close> is library code outside the sources. The
  spec gives percentiles by linear interpolation, numpy's default method: the virtual index
  \<open>(n - 1) * q / 100\<close> into the sorted sample, interpolated between its two neighbours,
  here in exact arithmetic.
\<close>

definition np_percentile :: "real list \<Rightarrow> real \<Rightarrow> real" where
  "np_percentile xs q =
     (let s = sort xs; n = length s;
          h = real (n - 1) * q / 100;
          lo = nat \<lfloor>h\<rfloor>;
          hi = min (lo + 1) (n - 1)
      in s ! lo + (s ! hi - s ! lo) * (h - real lo))"

definition np_percentiles :: "real list \<Rightarrow> real list \<Rightarrow> real list" where
  "np_percentiles xs qs = map (np_percentile xs) qs"

text \<open>\<open>[r['responseTime'] for r in results['response_checks'] if r['responded']]\<close>\<close>

fun response_times_of :: "json list \<Rightarrow> py_error + json list" where
  "response_times_of [] = Inr []"
| "response_times_of (r # rs) =
     bnd (getitem r ''responded'') (\<lambda>resp.
       if truthy resp
       then bnd (getitem r ''responseTime'') (\<lambda>t.
              bnd (response_times_of rs) (\<lambda>ts. Inr (t # ts)))
       else response_times_of rs)"

definition failrate_of :: "nat \<Rightarrow> nat \<Rightarrow> real" where
  "failrate_of n_checks n_times =
     (if n_checks \<noteq> 0 then (real n_checks - real n_times) / real n_checks else 1)"

text \<open>\<open>survey_reducer\<close>: a dict of dicts of counters.\<close>

type_synonym tally = "(json \<times> (json \<times> nat) list) list"

fun counter_bump :: "json \<Rightarrow> (json \<times> nat) list \<Rightarrow> (json \<times> nat) list" where
  "counter_bump a [] = [(a, 1)]"
| "counter_bump a ((a', n) # cs) =
     (if py_eq a' a then (a', n + 1) # cs else (a', n) # counter_bump a cs)"

fun tally_bump :: "json \<Rightarrow> json \<Rightarrow> tally \<Rightarrow> tally" where
  "tally_bump t a [] = [(t, counter_bump a [])]"
| "tally_bump t a ((t', cs) # ts) =
     (if py_eq t' t then (t', counter_bump a cs) # ts else (t', cs) # tally_bump t a ts)"

definition survey_reducer :: "tally \<Rightarrow> json \<Rightarrow> py_error + tally" where
  "survey_reducer accum val =
     bnd (dict_get val ''title'' (JStr ''INVALID'')) (\<lambda>title.
       if \<not> hashable title then Inl TypeError
       else bnd (dict_get val ''answer'' (JStr ''INVALID'')) (\<lambda>answer.
         if \<not> hashable answer then Inl TypeError
         else Inr (tally_bump title answer accum)))"

text \<open>
  The four numpy calls of the helper, \<open>numpy.mean\<close>, \<open>numpy.median\<close>, \<open>numpy.std\<close> and
  \<open>numpy.percentile\<close>, each with \<open>float\<close> applied to what it returns: library code that
  the helper is given. \<open>'f\<close> is the type of the floats they return.
\<close>

record 'f numpy =
  numpy_mean :: "json list \<Rightarrow> py_error + 'f"
  numpy_median :: "json list \<Rightarrow> py_error + 'f"
  numpy_std :: "json list \<Rightarrow> py_error + 'f"
  numpy_percentile :: "json list \<Rightarrow> real list \<Rightarrow> py_error + 'f list"

record 'f stat_row =
  st_platform :: json
  st_propagation_channel_id :: json
  st_sponsor_id :: json
  st_mean :: "'f option"
  st_median :: "'f option"
  st_stddev :: "'f option"
  st_quartiles :: "'f list option"
  st_failrate :: real
  st_response_sample_count :: nat
  st_survey_results :: tally
  st_record_count :: nat

text \<open>\<open>f(response_times) if len(response_times) else None\<close>\<close>

definition if_len :: "json list \<Rightarrow> (json list \<Rightarrow> py_error + 'a) \<Rightarrow> py_error + 'a option" where
  "if_len response_times f =
     (if response_times \<noteq> [] then bnd (f response_times) (\<lambda>v. Inr (Some v)) else Inr None)"

text \<open>Body of the loop over \<open>raw_stats.items()\<close>, for any numpy.\<close>

definition stat_of_with :: "'f numpy \<Rightarrow> stats_key \<Rightarrow> group \<Rightarrow> py_error + 'f stat_row" where
  "stat_of_with np result_params results =
     bnd (response_times_of (g_response_checks results)) (\<lambda>response_times.
     bnd (if_len response_times (numpy_mean np)) (\<lambda>mean.
     bnd (if_len response_times (numpy_median np)) (\<lambda>median.
     bnd (if_len response_times (numpy_std np)) (\<lambda>stddev.
     bnd (if_len response_times (\<lambda>ts. numpy_percentile np ts [5, 25, 50, 75, 95])) (\<lambda>quartiles.
     bnd (for_each survey_reducer [] (g_survey_results results)) (\<lambda>survey_results.
       Inr \<lparr>st_platform = fst result_params,
            st_propagation_channel_id = fst (snd result_params),
            st_sponsor_id = snd (snd result_params),
            st_mean = mean,
            st_median = median,
            st_stddev = stddev,
            st_quartiles = quartiles,
            st_failrate = failrate_of (length (g_response_checks results)) (length response_times),
            st_response_sample_count = length (g_response_checks results),
            st_survey_results = survey_results,
            st_record_count = g_count results\<rparr>))))))"

text \<open>
  Modelled from the spec: numpy is library code outside the sources. The spec names the
  mean, the median, the standard deviation and the percentiles by linear interpolation;
  they are taken here in exact arithmetic, with the loop body that uses them.
\<close>

definition numpy_exact :: "real numpy" where
  "numpy_exact =
     \<lparr>numpy_mean = (\<lambda>xs. bnd (np_array xs) (\<lambda>vs. Inr (np_mean vs))),
      numpy_median = (\<lambda>xs. bnd (np_array xs) (\<lambda>vs. Inr (np_median vs))),
      numpy_std = (\<lambda>xs. bnd (np_array xs) (\<lambda>vs. Inr (np_std vs))),
      numpy_percentile = (\<lambda>xs qs. bnd (np_array xs) (\<lambda>vs.
         if all_bool xs then Inl TypeError else Inr (np_percentiles vs qs)))\<rparr>"

definition stat_of :: "stats_key \<Rightarrow> group \<Rightarrow> py_error + real stat_row" where
  "stat_of result_params results = stat_of_with numpy_exact result_params results"

fun stats_of :: "raw_stats \<Rightarrow> py_error + real stat_row list" where
  "stats_of [] = Inr []"
| "stats_of ((k, g) # rs) =
     bnd (stat_of k g) (\<lambda>row. bnd (stats_of rs) (\<lambda>rows. Inr (row # rows)))"

definition get_stats_helper :: "json list \<Rightarrow> int \<Rightarrow> py_error + real stat_row list" where
  "get_stats_helper db since_time =
     bnd (for_each legacy_step []
            (find_diagnostic db since_time ''android'' (\<lambda>v. v = 1))) (\<lambda>raw1.
     bnd (for_each (current_step (JStr ''android'')) raw1
            (find_diagnostic db since_time ''android'' (\<lambda>v. 2 < v))) (\<lambda>raw2.
     bnd (for_each (current_step (JStr ''windows'')) raw2
            (find_diagnostic db since_time ''windows'' (\<lambda>v. 1 < v))) (\<lambda>raw3.
       stats_of raw3)))"

text \<open>
  A response check is marked responded when its \<open>responded\<close> field is truthy, as the
  helper tests it; it is usable when it is marked responded and carries a number.
\<close>

definition responded :: "json \<Rightarrow> bool" where
  "responded r = (case getitem r ''responded'' of Inr resp \<Rightarrow> truthy resp | Inl e \<Rightarrow> False)"

definition usable :: "json \<Rightarrow> bool" where
  "usable r =
     (case getitem r ''responded'' of
        Inr resp \<Rightarrow> truthy resp \<and>
          (case getitem r ''responseTime'' of Inr t \<Rightarrow> num_val t \<noteq> None | Inl e \<Rightarrow> False)
      | Inl e \<Rightarrow> False)"

section \<open>Record store (\<open>datastore.py\<close>)\<close>

text \<open>
  Modelled from the spec: \<open>logger.error\<close> is not among the sources. The spec has a
  rejected insert logged as an error category and not raised: the log is a list of entries,
  one for each call of \<open>logger.error\<close>, kept in the state of the store.
\<close>

datatype log_entry = MissingId | DuplicateId json

record store =
  diagnostic_info :: "json list"
  autoresponder :: "json list"
  response_blacklist :: "json list"
  next_oid :: nat
  log :: "log_entry list"

text \<open>
  \<open>insert_one\<close>: a document without \<open>_id\<close> gets a fresh one; a given \<open>_id\<close> must be new
  in the collection.
\<close>

definition insert_one :: "json list \<Rightarrow> nat \<Rightarrow> json \<Rightarrow> py_error + (json list \<times> nat \<times> json)" where
  "insert_one coll n doc =
     (case doc of
        JObj kvs \<Rightarrow>
          (case map_of kvs ''_id'' of
             None \<Rightarrow> Inr (coll @ [JObj ((''_id'', JOid n) # kvs)], Suc n, JOid n)
           | Some i \<Rightarrow>
               if list_ex (\<lambda>d. case field d ''_id'' of None \<Rightarrow> False | Some j \<Rightarrow> bson_eq j i) coll
               then Inl DuplicateKeyError
               else Inr (coll @ [doc], n, i))
      | _ \<Rightarrow> Inl TypeError)"

definition insert_diagnostic_info :: "json \<Rightarrow> int \<Rightarrow> store \<Rightarrow> py_error + (json option \<times> store)" where
  "insert_diagnostic_info obj now st =
     bnd (dict_get obj ''Metadata'' empty_dict) (\<lambda>md.
     bnd (dict_get md ''id'' JNull) (\<lambda>feedback_id.
       if feedback_id = JNull then Inr (None, st\<lparr>log := log st @ [MissingId]\<rparr>)
       else
         case find (matches [''Metadata'', ''id''] feedback_id) (diagnostic_info st) of
           Some doc \<Rightarrow> Inr (None, st\<lparr>log := log st @ [DuplicateId feedback_id]\<rparr>)
         | None \<Rightarrow>
             bnd (setitem obj ''datetime'' (JDate now)) (\<lambda>obj1.
             bnd (insert_one (diagnostic_info st) (next_oid st) obj1) (\<lambda>(coll, n, oid).
               Inr (Some oid, st\<lparr>diagnostic_info := coll, next_oid := n\<rparr>)))))"

text \<open>\<open>find_one_and_delete(filter={})\<close>: one step that takes the first document out.\<close>

definition find_one_and_delete :: "json list \<Rightarrow> json option \<times> json list" where
  "find_one_and_delete coll = (case coll of [] \<Rightarrow> (None, []) | d # ds \<Rightarrow> (Some d, ds))"

text \<open>
  \<open>get_autoresponder_iterator\<close> is a generator. Each caller holds one; a step of caller
  \<open>c\<close> is one turn of its loop: the pop, then either the end of the generator or a yield.
  Callers run interleaved, the pop being a single operation of the store.
\<close>

record ar_state =
  ar_queue :: "json list"
  ar_yielded :: "nat \<Rightarrow> json list"
  ar_finished :: "nat \<Rightarrow> bool"

definition ar_next :: "nat \<Rightarrow> ar_state \<Rightarrow> ar_state" where
  "ar_next c s =
     (if ar_finished s c then s
      else case find_one_and_delete (ar_queue s) of (next_rec, q) \<Rightarrow>
        (case next_rec of
           None \<Rightarrow> s\<lparr>ar_queue := q, ar_finished := (ar_finished s)(c := True)\<rparr>
         | Some d \<Rightarrow>
             if \<not> truthy d then s\<lparr>ar_queue := q, ar_finished := (ar_finished s)(c := True)\<rparr>
             else s\<lparr>ar_queue := q, ar_yielded := (ar_yielded s)(c := ar_yielded s c @ [d])\<rparr>))"

fun ar_run :: "nat list \<Rightarrow> ar_state \<Rightarrow> ar_state" where
  "ar_run [] s = s"
| "ar_run (c # cs) s = ar_run cs (ar_next c s)"

definition ar_init :: "json list \<Rightarrow> ar_state" where
  "ar_init q = \<lparr>ar_queue = q, ar_yielded = (\<lambda>c. []), ar_finished = (\<lambda>c. False)\<rparr>"

text \<open>
  \<open>find_one_and_update\<close> with \<open>upsert=True\<close> and \<open>$setOnInsert\<close>: a matching document is
  returned untouched; without one, the filter's fields and the inserted fields make a new
  document and \<open>None\<close> is returned.
\<close>

definition check_and_add_response_address_blacklist :: "string \<Rightarrow> int \<Rightarrow> store \<Rightarrow> bool \<times> store" where
  "check_and_add_response_address_blacklist address now st =
     (case find (matches [''address''] (JStr address)) (response_blacklist st) of
        Some match \<Rightarrow> (truthy match, st)
      | None \<Rightarrow>
          (False,
           st\<lparr>response_blacklist := response_blacklist st @
                 [JObj [(''_id'', JOid (next_oid st)),
                        (''address'', JStr address),
                        (''datetime'', JDate now)]],
              next_oid := Suc (next_oid st)\<rparr>))"

definition BLACKLIST_LIFETIME_SECS :: int where
  "BLACKLIST_LIFETIME_SECS = 60 * 60 * 24"

text \<open>The time-to-live index: documents whose \<open>datetime\<close> is older than the lifetime go.\<close>

definition expired :: "int \<Rightarrow> int \<Rightarrow> json \<Rightarrow> bool" where
  "expired lifetime now d =
     (case field d ''datetime'' of Some (JDate t) \<Rightarrow> t + lifetime < now | _ \<Rightarrow> False)"

definition ttl_purge :: "int \<Rightarrow> store \<Rightarrow> store" where
  "ttl_purge now st =
     st\<lparr>response_blacklist :=
          filter (\<lambda>d. \<not> expired BLACKLIST_LIFETIME_SECS now d) (response_blacklist st)\<rparr>"

datatype blacklist_op = CheckAdd string int | Purge int

fun blacklist_run :: "blacklist_op list \<Rightarrow> store \<Rightarrow> store" where
  "blacklist_run [] st = st"
| "blacklist_run (CheckAdd a now # ops) st =
     blacklist_run ops (snd (check_and_add_response_address_blacklist a now st))"
| "blacklist_run (Purge now # ops) st = blacklist_run ops (ttl_purge now st)"

definition empty_store :: store where
  "empty_store = \<lparr>diagnostic_info = [], autoresponder = [], response_blacklist = [],
                  next_oid = 0, log = []\<rparr>"

definition entries_for :: "string \<Rightarrow> store \<Rightarrow> json list" where
  "entries_for address st = filter (matches [''address''] (JStr address)) (response_blacklist st)"

definition stored_with_id :: "json \<Rightarrow> store \<Rightarrow> json list" where
  "stored_with_id fid st = filter (matches [''Metadata'', ''id''] fid) (diagnostic_info st)"

section \<open>Delivery adapter (\<open>sender.py\<close>)\<close>

definition SES_EMAIL_SIZE_LIMIT :: nat where
  "SES_EMAIL_SIZE_LIMIT = 10485760"

type_synonym body_part = "string \<times> string"

definition header_line :: "string \<times> string \<Rightarrow> string" where
  "header_line h = fst h @ '': '' @ snd h @ [CHR 0x0D, CHR 0x0A]"

definition render_part :: "body_part \<Rightarrow> string" where
  "render_part p =
     ''Content-Type: text/'' @ fst p @ [CHR 0x0D, CHR 0x0A, CHR 0x0D, CHR 0x0A]
       @ snd p @ [CHR 0x0D, CHR 0x0A]"

text \<open>
  Modelled from the spec: \<open>sendmail.create_raw_email\<close> is not among the sources. The spec
  gives an internet message with optional plain-text and HTML alternative parts and extra
  headers, and a completely empty body as a send that does nothing: the message is the
  header block followed by the body parts in their order, and there is no message for an
  empty body.
\<close>

definition create_raw_email ::
  "string \<Rightarrow> string \<Rightarrow> string \<Rightarrow> body_part list \<Rightarrow> 'a list option \<Rightarrow> (string \<times> string) list
     \<Rightarrow> string option" where
  "create_raw_email recipients from_address subject body attachments extra_headers =
     (if body = [] then None
      else Some (concat (map header_line
                   ([(''To'', recipients), (''From'', from_address), (''Subject'', subject)]
                    @ extra_headers))
                 @ concat (map render_part body)))"

definition truthy_str :: "string option \<Rightarrow> bool" where
  "truthy_str s = (case s of None \<Rightarrow> False | Some x \<Rightarrow> x \<noteq> [])"

definition truthy_list :: "'a list option \<Rightarrow> bool" where
  "truthy_list s = (case s of None \<Rightarrow> False | Some x \<Rightarrow> x \<noteq> [])"

text \<open>The call of \<open>sendmail.send_raw_email_amazonses\<close>: raw email, sender, recipient.\<close>

datatype ses_call = SesSend string string string

text \<open>\<open>body.pop()\<close>\<close>

definition list_pop :: "'a list \<Rightarrow> py_error + 'a list" where
  "list_pop xs = (if xs = [] then Inl IndexError else Inr (butlast xs))"

text \<open>The headers and the body parts \<open>send_response\<close> builds before the message.\<close>

definition extra_headers_of :: "string \<Rightarrow> string option \<Rightarrow> (string \<times> string) list" where
  "extra_headers_of from_address replyid =
     (''Reply-To'', from_address) #
     (if truthy_str replyid
      then [(''In-Reply-To'', the replyid), (''References'', the replyid)] else [])"

definition body_of :: "string option \<Rightarrow> string option \<Rightarrow> body_part list" where
  "body_of body_text body_html =
     (if truthy_str body_text then [(''plain'', the body_text)] else []) @
     (if truthy_str body_html then [(''html'', the body_html)] else [])"

text \<open>
  \<open>send_response\<close>: \<open>None\<close> is a return without a send, \<open>Some\<close> the one call of the
  transport that ends the function.
\<close>

definition send_response ::
  "string \<Rightarrow> string \<Rightarrow> string \<Rightarrow> string option \<Rightarrow> string option \<Rightarrow> string option
     \<Rightarrow> 'a list option \<Rightarrow> py_error + ses_call option" where
  "send_response recipient from_address subject body_text body_html replyid attachments =
     (if truthy_list attachments then Inr None
      else
        let extra_headers = extra_headers_of from_address replyid;
            body = body_of body_text body_html;
            raw_email = create_raw_email recipient from_address subject body attachments extra_headers
        in if \<not> truthy_str raw_email then Inr None
           else
             bnd (if SES_EMAIL_SIZE_LIMIT < length (the raw_email)
                  then bnd (list_pop body) (\<lambda>body'.
                         Inr (create_raw_email recipient from_address subject body'
                                attachments extra_headers))
                  else Inr raw_email) (\<lambda>raw_email2.
               if \<not> truthy_str raw_email2 then Inr None
               else Inr (Some (SesSend (the raw_email2) from_address recipient))))"

section \<open>Region report (\<open>psi_mail_stats.py\<close>)\<close>

text \<open>
  A value of a query result is an integer or SQL \<open>NULL\<close> (\<open>None\<close>); Python 2 orders
  \<open>None\<close> below every number, as the order on \<open>int option\<close> does.
\<close>

type_synonym cell = "int option"
type_synonym cells = "(string \<times> cell) list"
type_synonym table_dict = "(string \<times> cells) list"

fun str_nat :: "nat \<Rightarrow> string" where
  "str_nat n = (if n < 10 then [char_of (48 + n)] else str_nat (n div 10) @ [char_of (48 + n mod 10)])"

definition str_int :: "int \<Rightarrow> string" where
  "str_int i = (if i < 0 then CHR ''-'' # str_nat (nat (- i)) else str_nat (nat i))"

definition str_cell :: "cell \<Rightarrow> string" where
  "str_cell v = (case v of None \<Rightarrow> ''None'' | Some i \<Rightarrow> str_int i)"

definition str_region :: "string option \<Rightarrow> string" where
  "str_region r = (case r of None \<Rightarrow> ''None'' | Some s \<Rightarrow> s)"

text \<open>\<open>table_dict[region][column] = row[1]\<close>, the inner dict made on first use.\<close>

definition set_cell :: "string \<Rightarrow> table_dict \<Rightarrow> string option \<times> cell \<Rightarrow> table_dict" where
  "set_cell column td row =
     (let region = str_region (fst row)
      in case map_of td region of
           None \<Rightarrow> td @ [(region, [(column, snd row)])]
         | Some values \<Rightarrow> AList.update region (AList.update column (snd row) values) td)"

text \<open>One column: the region rows, then the row of the total query.\<close>

definition fill_column ::
  "table_dict \<Rightarrow> string \<times> ((string option \<times> cell) list \<times> cell) \<Rightarrow> table_dict" where
  "fill_column td q =
     foldl (set_cell (fst q)) td (fst (snd q) @ [(Some ''Total'', snd (snd q))])"

definition build_table ::
  "(string \<times> ((string option \<times> cell) list \<times> cell)) list \<Rightarrow> table_dict" where
  "build_table results = foldl fill_column [] results"

text \<open>Reading a \<open>defaultdict(int)\<close>.\<close>

definition get_cell :: "cells \<Rightarrow> string \<Rightarrow> cell" where
  "get_cell values column = (case map_of values column of None \<Rightarrow> Some 0 | Some v \<Rightarrow> v)"

text \<open>\<open>sorted(xs, key=k, reverse=True)\<close>: descending, equal keys in their first order.\<close>

definition py_sorted_reverse :: "('a \<Rightarrow> 'k::linorder) \<Rightarrow> 'a list \<Rightarrow> 'a list" where
  "py_sorted_reverse k xs = rev (sort_key k (rev xs))"

definition pad14 :: "string \<Rightarrow> string" where
  "pad14 s = replicate (14 - length s) CHR '' '' @ s"

definition report_rows :: "string list \<Rightarrow> (string \<times> cells) list \<Rightarrow> (string \<times> cell list) list" where
  "report_rows columns items =
     map (\<lambda>x. (fst x, map (get_cell (snd x)) columns))
       (take 11 (py_sorted_reverse (\<lambda>x. get_cell (snd x) (last columns)) items))"

definition format_row :: "string \<times> cell list \<Rightarrow> string" where
  "format_row r = concat (map pad14 (fst r # map str_cell (snd r)))"

text \<open>
  The printed lines of one table. The dict is iterated in the order \<open>items_order\<close> puts
  its entries in: Python 2 fixes none.
\<close>

definition print_table ::
  "(table_dict \<Rightarrow> table_dict) \<Rightarrow> string \<Rightarrow> (string \<times> ((string option \<times> cell) list \<times> cell)) list
     \<Rightarrow> string list" where
  "print_table items_order title results =
     (let columns = map fst results;
          table_dict = build_table results
      in title
         # concat (map pad14 (''Region'' # columns))
         # map format_row (report_rows columns (items_order table_dict)))"

section \<open>Example inputs and derived notions\<close>

definition example_group :: group where
  "example_group = \<lparr>g_count = 2,
     g_response_checks =
       [JObj [(''responded'', JBool True), (''responseTime'', JInt 120)],
        JObj [(''responded'', JBool False), (''responseTime'', JInt 5)]],
     g_survey_results = []\<rparr>"

definition legacy_record :: json where
  "legacy_record = JObj
     [(''Metadata'', JObj [(''id'', JStr ''89abcdef''), (''platform'', JStr ''android''),
                           (''version'', JInt 1)]),
      (''datetime'', JDate 1000),
      (''SystemInformation'', JObj [(''psiphonEmbeddedValues'',
         JObj [(''PROPAGATION_CHANNEL_ID'', JStr ''C1''), (''SPONSOR_ID'', JStr ''S1'')])]),
      (''DiagnosticHistory'', JList
         [JObj [(''msg'', JStr ''ServerResponseCheck''),
                (''data'', JObj [(''responded'', JStr ''Yes''), (''responseTime'', JStr ''120'')])]])]"

definition group_count :: "raw_stats \<Rightarrow> stats_key \<Rightarrow> nat" where
  "group_count raw k = (case rs_lookup raw k of None \<Rightarrow> 0 | Some g \<Rightarrow> g_count g)"

definition channel_only_legacy :: json where
  "channel_only_legacy = JObj
     [(''SystemInformation'', JObj [(''psiphonEmbeddedValues'',
         JObj [(''PROPAGATION_CHANNEL_ID'', JStr ''C1'')])]),
      (''DiagnosticHistory'', JList [])]"

definition channel_only_current :: json where
  "channel_only_current = JObj
     [(''DiagnosticInfo'', JObj
         [(''SystemInformation'', JObj [(''PsiphonInfo'',
             JObj [(''PROPAGATION_CHANNEL_ID'', JStr ''C1'')])]),
          (''DiagnosticHistory'', JList [])])]"

definition current_record :: json where
  "current_record = JObj
     [(''DiagnosticInfo'', JObj
         [(''SystemInformation'', JObj [(''PsiphonInfo'',
             JObj [(''PROPAGATION_CHANNEL_ID'', JStr ''C1''), (''SPONSOR_ID'', JStr ''S1'')])]),
          (''DiagnosticHistory'', JList
             [JObj [(''msg'', JStr ''ServerResponseCheck''),
                    (''data'', JObj [(''responded'', JBool True), (''responseTime'', JInt 80)])]])])]"

definition no_duplicates :: "store \<Rightarrow> bool" where
  "no_duplicates st = (\<forall>b. length (entries_for b st) \<le> 1)"

definition feedback_record :: json where
  "feedback_record = JObj
     [(''Metadata'', JObj [(''id'', JStr ''0123abcd''), (''platform'', JStr ''android''),
                           (''version'', JInt 2)]),
      (''Feedback'', JObj [])]"

definition big_text :: string where
  "big_text = replicate 10485760 CHR ''a''"

definition all_yielded :: "nat \<Rightarrow> ar_state \<Rightarrow> json list" where
  "all_yielded k s = concat (map (ar_yielded s) [0..<k])"

definition example_queue :: "json list" where
  "example_queue =
     [JObj [(''_id'', JOid 0), (''email_info'', JStr ''a'')],
      JObj [(''_id'', JOid 1), (''email_info'', JStr ''b'')],
      JObj [(''_id'', JOid 2), (''email_info'', JStr ''c'')]]"

text \<open>What one step keeps: the entries yielded so far and those still queued are the queue
  the callers started from; once a caller has finished the queue is empty.\<close>

definition ar_inv :: "nat \<Rightarrow> json list \<Rightarrow> ar_state \<Rightarrow> bool" where
  "ar_inv k q s =
     (mset (all_yielded k s) + mset (ar_queue s) = mset q
      \<and> ((\<exists>c. ar_finished s c) \<longrightarrow> ar_queue s = []))"

definition interp :: "real list \<Rightarrow> real \<Rightarrow> real" where
  "interp s h =
     (let lo = nat \<lfloor>h\<rfloor>; hi = min (lo + 1) (length s - 1)
      in s ! lo + (s ! hi - s ! lo) * (h - real lo))"

definition connections_example :: "(string \<times> ((string option \<times> cell) list \<times> cell)) list" where
  "connections_example =
     [(''Yesterday'', ([(Some ''US'', Some 20), (Some ''CA'', Some 5)], Some 30)),
      (''Previous Day'', ([(Some ''US'', Some 15), (Some ''CA'', Some 3)], Some 20)),
      (''Past Week'', ([(Some ''US'', Some 50), (Some ''CA'', Some 10)], Some 70))]"

definition eleven_regions :: "(string option \<times> cell) list" where
  "eleven_regions =
     [(Some ''US'', Some 1), (Some ''CA'', Some 1), (Some ''DE'', Some 1), (Some ''FR'', Some 1),
      (Some ''GB'', Some 1), (Some ''IR'', Some 1), (Some ''CN'', Some 1), (Some ''RU'', Some 1),
      (Some ''IN'', Some 1), (Some ''BR'', Some 1), (Some ''TR'', Some 1)]"

definition unique_users_example :: "(string \<times> ((string option \<times> cell) list \<times> cell)) list" where
  "unique_users_example =
     [(''Yesterday'', (eleven_regions, Some 11)),
      (''Previous Day'', ([], Some 0)),
      (''Past Week'', ([], Some 0))]"

definition page_views_example :: "(string \<times> ((string option \<times> cell) list \<times> cell)) list" where
  "page_views_example =
     [(''Yesterday'', (eleven_regions, Some 11)),
      (''Previous Day'', ([], None)),
      (''Past Week'', ([], None))]"

definition list_time_record :: json where
  "list_time_record = JObj
     [(''Metadata'', JObj [(''id'', JStr ''4567cdef''), (''platform'', JStr ''windows''),
                           (''version'', JInt 2)]),
      (''datetime'', JDate 1000),
      (''DiagnosticInfo'', JObj
         [(''SystemInformation'', JObj [(''PsiphonInfo'',
             JObj [(''PROPAGATION_CHANNEL_ID'', JStr ''C1''), (''SPONSOR_ID'', JStr ''S1'')])]),
          (''DiagnosticHistory'', JList
             [JObj [(''msg'', JStr ''ServerResponseCheck''),
                    (''data'', JObj [(''responded'', JBool True),
                                     (''responseTime'', JList [JInt 1, JInt 2])])]])])]"

section \<open>Verified properties\<close>

subsection \<open>Helper lemmas\<close>

lemma bnd_Inr_iff: "bnd m f = Inr y \<longleftrightarrow> (\<exists>v. m = Inr v \<and> f v = Inr y)"
  by (cases m) (auto simp: bnd_def)

lemma example_group_row:
  "\<exists>row. stat_of (JStr ''android'', JStr ''C'', JStr ''S'') example_group = Inr row
         \<and> (\<exists>qs. st_quartiles row = Some qs)"
  by (simp add: stat_of_def stat_of_with_def if_len_def numpy_exact_def np_array_def
      all_bool_def example_group_def bnd_def)

lemma response_times_count:
  "response_times_of rc = Inr ts \<Longrightarrow> length ts = length (filter responded rc)"
proof (induction rc arbitrary: ts)
  case Nil
  then show ?case by simp
next
  case (Cons r rc)
  from Cons.prems obtain resp where resp: "getitem r ''responded'' = Inr resp"
    by (auto simp: bnd_Inr_iff)
  show ?case
  proof (cases "truthy resp")
    case True
    with Cons.prems resp obtain t ts' where
      ts': "response_times_of rc = Inr ts'" and eq: "ts = t # ts'"
      by (auto simp: bnd_Inr_iff)
    with Cons.IH[OF ts'] resp True show ?thesis by (simp add: responded_def)
  next
    case False
    with Cons.prems resp have "response_times_of rc = Inr ts" by (simp add: bnd_def)
    with Cons.IH[OF this] resp False show ?thesis by (simp add: responded_def)
  qed
qed

lemma failrate_of_props:
  assumes "k \<le> n"
  shows "0 \<le> failrate_of n k" "failrate_of n k \<le> 1" "failrate_of n k = 1 \<longleftrightarrow> k = 0 \<or> n = 0"
  using assms by (auto simp: failrate_of_def field_simps)

lemma usable_responded: "usable r \<Longrightarrow> responded r"
  by (auto simp: usable_def responded_def split: sum.splits)

lemma stat_of_with_failrate:
  assumes "stat_of_with np result_params results = Inr row"
  shows "\<exists>ts. response_times_of (g_response_checks results) = Inr ts
            \<and> st_failrate row = failrate_of (length (g_response_checks results)) (length ts)"
  using assms by (auto simp: stat_of_with_def bnd_Inr_iff)

lemma list_time_stats:
  "map_sum id (map st_failrate) (get_stats_helper [list_time_record] 0) = Inr [0]"
  by (simp add: get_stats_helper_def find_diagnostic_def doc_matches_def field_def
      matches_def match_eq_def match_pred_def bson_eq_def list_time_record_def current_step_def current_ids_def survey_of_def empty_dict_def
      is_response_check_def rs_ensure_def key_hashable_def key_eq_def py_eq_def
      empty_group_def stat_of_def stat_of_with_def if_len_def numpy_exact_def np_array_def
      all_bool_def failrate_of_def bnd_def)

subsection \<open>Fail-rate of a group\<close>

text \<open>
  C1, as amended. Whenever the statistics of a group are computed, with whatever numpy, its
  fail-rate is the number of response checks of the group that are not marked responded
  divided by the number of its response checks, and 1 when the group has none; it lies
  between 0 and 1; and it is 1 exactly when no response check of the group is marked
  responded. Where every check marked responded carries a numeric response time, the
  checks not marked responded are those without a usable response time, and the fail-rate
  is 1 exactly when no response check has both \<open>responded\<close> true and a numeric response
  time.
\<close>

theorem failrate_spec:
  assumes "stat_of_with np result_params results = Inr row"
  shows "st_failrate row =
           (if g_response_checks results = [] then 1
            else real (length (filter (\<lambda>r. \<not> responded r) (g_response_checks results)))
                   / real (length (g_response_checks results)))
         \<and> 0 \<le> st_failrate row \<and> st_failrate row \<le> 1
         \<and> (st_failrate row = 1 \<longleftrightarrow> \<not> (\<exists>r \<in> set (g_response_checks results). responded r))
         \<and> ((\<forall>r \<in> set (g_response_checks results). responded r \<longrightarrow> usable r) \<longrightarrow>
              st_failrate row =
                (if g_response_checks results = [] then 1
                 else real (length (filter (\<lambda>r. \<not> usable r) (g_response_checks results)))
                        / real (length (g_response_checks results)))
              \<and> (st_failrate row = 1 \<longleftrightarrow> \<not> (\<exists>r \<in> set (g_response_checks results). usable r)))"
proof -
  let ?rc = "g_response_checks results"
  from stat_of_with_failrate[OF assms] obtain ts where
    ts: "response_times_of ?rc = Inr ts"
    and fr: "st_failrate row = failrate_of (length ?rc) (length ts)"
    by blast
  have len: "length ts = length (filter responded ?rc)"
    by (rule response_times_count[OF ts])
  have le: "length ts \<le> length ?rc" unfolding len by simp
  have compl: "length (filter (\<lambda>r. \<not> responded r) ?rc) = length ?rc - length ts"
    unfolding len using sum_length_filter_compl[of responded ?rc] by simp
  have a: "st_failrate row =
           (if ?rc = [] then 1
            else real (length (filter (\<lambda>r. \<not> responded r) ?rc)) / real (length ?rc))"
    unfolding fr compl using le by (simp add: failrate_of_def)
  have d: "st_failrate row = 1 \<longleftrightarrow> \<not> (\<exists>r \<in> set ?rc. responded r)"
  proof -
    have "st_failrate row = 1 \<longleftrightarrow> length ts = 0 \<or> length ?rc = 0"
      unfolding fr using failrate_of_props(3)[OF le] .
    also have "\<dots> \<longleftrightarrow> filter responded ?rc = []" unfolding len by auto
    also have "\<dots> \<longleftrightarrow> \<not> (\<exists>r \<in> set ?rc. responded r)" by (simp add: filter_empty_conv)
    finally show ?thesis .
  qed
  have e: "(\<forall>r \<in> set ?rc. responded r \<longrightarrow> usable r) \<longrightarrow>
              st_failrate row =
                (if ?rc = [] then 1
                 else real (length (filter (\<lambda>r. \<not> usable r) ?rc)) / real (length ?rc))
              \<and> (st_failrate row = 1 \<longleftrightarrow> \<not> (\<exists>r \<in> set ?rc. usable r))"
  proof
    assume h: "\<forall>r \<in> set ?rc. responded r \<longrightarrow> usable r"
    then have "\<forall>r \<in> set ?rc. (\<not> usable r) = (\<not> responded r)"
      using usable_responded by blast
    then have "filter (\<lambda>r. \<not> usable r) ?rc = filter (\<lambda>r. \<not> responded r) ?rc"
      by (intro filter_cong) simp_all
    moreover have "(\<exists>r \<in> set ?rc. usable r) = (\<exists>r \<in> set ?rc. responded r)"
      using h usable_responded by blast
    ultimately show "st_failrate row =
                (if ?rc = [] then 1
                 else real (length (filter (\<lambda>r. \<not> usable r) ?rc)) / real (length ?rc))
              \<and> (st_failrate row = 1 \<longleftrightarrow> \<not> (\<exists>r \<in> set ?rc. usable r))"
      using a d by simp
  qed
  have b1: "0 \<le> st_failrate row" and b2: "st_failrate row \<le> 1"
    unfolding fr using failrate_of_props(1,2)[OF le] by simp_all
  from a b1 b2 d e show ?thesis by blast
qed

theorem failrate_spec_witness:
  "\<exists>row. stat_of (JStr ''android'', JStr ''C'', JStr ''S'') example_group = Inr row
         \<and> st_failrate row = 1 / 2 \<and> 0 \<le> st_failrate row \<and> st_failrate row \<le> 1"
proof -
  obtain row where r: "stat_of_with numpy_exact (JStr ''android'', JStr ''C'', JStr ''S'') example_group
                         = Inr row"
    using example_group_row by (auto simp: stat_of_def)
  from failrate_spec[OF r]
  have "st_failrate row = 1 / 2 \<and> 0 \<le> st_failrate row \<and> st_failrate row \<le> 1"
    by (simp add: responded_def example_group_def)
  with r show ?thesis by (auto simp: stat_of_def)
qed

text \<open>
  C1 as stated fails: a record of the current path whose one response check is marked
  responded and carries the list \<open>[1, 2]\<close> as its response time gives a group with
  fail-rate 0, and no response check of it has a numeric response time.
\<close>

theorem failrate_counterexample:
  "map_sum id (map st_failrate) (get_stats_helper [list_time_record] 0) = Inr [0]
   \<and> \<not> usable (JObj [(''responded'', JBool True), (''responseTime'', JList [JInt 1, JInt 2])])"
  using list_time_stats by (simp add: usable_def)

subsection \<open>Helper lemmas on the normalizer\<close>

lemma py_int_120: "py_int ''120'' = Inr 120"
  by (simp add: py_int_def strip_def is_space_def unsigned_int_def is_digit_def digits_value_def digit_val_def)

lemma coerce_check_native:
  assumes "coerce_check r = Inr r'"
  shows "getitem r' ''responded'' \<noteq> Inr (JStr s) \<and> getitem r' ''responseTime'' \<noteq> Inr (JStr s)"
proof -
  from assms obtain kvs where r: "r = JObj kvs"
    by (cases r) (auto simp: coerce_check_def bnd_def)
  from assms r obtain resp where resp: "map_of kvs ''responded'' = Some resp"
    by (auto simp: coerce_check_def bnd_def split: option.splits)
  define kvs1 where "kvs1 = (case resp of JStr s \<Rightarrow> AList.update ''responded'' (JBool (s = ''Yes'')) kvs | _ \<Rightarrow> kvs)"
  have r1: "(case resp of JStr s \<Rightarrow> setitem r ''responded'' (JBool (s = ''Yes'')) | _ \<Rightarrow> Inr r) = Inr (JObj kvs1)"
    by (cases resp) (simp_all add: r kvs1_def)
  have resp1: "\<And>s. map_of kvs1 ''responded'' \<noteq> Some (JStr s)"
    using resp by (cases resp) (simp_all add: kvs1_def update_conv')
  from assms r resp r1 obtain rt where rt: "map_of kvs1 ''responseTime'' = Some rt"
    by (auto simp: coerce_check_def bnd_def split: option.splits)
  show ?thesis
  proof (cases rt)
    case (JStr t)
    with assms r resp r1 rt obtain i where "r' = JObj (AList.update ''responseTime'' (JInt i) kvs1)"
      by (auto simp: coerce_check_def bnd_def split: sum.splits)
    with resp1 show ?thesis by (auto simp: update_conv' split: option.splits)
  qed (use assms r resp r1 rt resp1 in \<open>auto simp: coerce_check_def bnd_def split: option.splits\<close>)
qed

lemma py_eq_refl: "py_eq a a"
  by (cases a) (simp_all add: py_eq_def)

lemma key_eq_refl: "key_eq k k"
  by (cases k) (simp add: key_eq_def py_eq_refl)

lemma rs_lookup_append:
  "rs_lookup (rs @ [(k, g)]) k' =
     (case rs_lookup rs k' of None \<Rightarrow> (if key_eq k k' then Some g else None) | Some h \<Rightarrow> Some h)"
  by (induction rs) auto

lemma rs_lookup_modify: "rs_lookup (rs_modify f k rs) k = map_option f (rs_lookup rs k)"
  by (induction rs) auto

lemma rs_ensure_lookup:
  assumes "rs_ensure k raw = Inr raw1"
  shows "rs_lookup raw1 k = Some (case rs_lookup raw k of None \<Rightarrow> empty_group | Some g \<Rightarrow> g)"
  using assms
  by (auto simp: rs_ensure_def rs_lookup_append key_eq_refl split: if_splits option.splits)

lemma ensure_modify_count:
  assumes "rs_ensure k raw = Inr raw1" and "\<And>g. g_count (f g) = g_count g + 1"
  shows "group_count (rs_modify f k raw1) k = group_count raw k + 1"
  using rs_ensure_lookup[OF assms(1)] assms(2)
  by (simp add: group_count_def rs_lookup_modify empty_group_def split: option.splits)

lemma legacy_step_counts:
  assumes "legacy_ids rec = Inr (c, s)" "truthy c" "truthy s" "legacy_step raw rec = Inr raw'"
  shows "group_count raw' (JStr ''android'', c, s) = group_count raw (JStr ''android'', c, s) + 1"
proof -
  from assms obtain raw1 rcs where
    e: "rs_ensure (JStr ''android'', c, s) raw = Inr raw1"
    and r: "raw' = rs_modify (\<lambda>g. g\<lparr>g_response_checks := g_response_checks g @ rcs,
                          g_count := g_count g + 1\<rparr>) (JStr ''android'', c, s) raw1"
    by (auto simp: legacy_step_def bnd_Inr_iff)
  show ?thesis unfolding r by (rule ensure_modify_count[OF e]) simp
qed

lemma legacy_step_skips:
  assumes "legacy_ids rec = Inr (c, s)" "\<not> (truthy c \<and> truthy s)"
  shows "legacy_step raw rec = Inr raw"
  using assms by (auto simp: legacy_step_def bnd_def)

lemma current_step_counts:
  assumes "current_ids rec = Inr (c, s)" "truthy c" "truthy s" "current_step p raw rec = Inr raw'"
  shows "group_count raw' (p, c, s) = group_count raw (p, c, s) + 1"
proof -
  from assms obtain raw1 rcs svs where
    e: "rs_ensure (p, c, s) raw = Inr raw1"
    and r: "raw' = rs_modify (\<lambda>g. g\<lparr>g_response_checks := g_response_checks g @ rcs,
                          g_survey_results := g_survey_results g @ svs,
                          g_count := g_count g + 1\<rparr>) (p, c, s) raw1"
    by (auto simp: current_step_def bnd_Inr_iff)
  show ?thesis unfolding r by (rule ensure_modify_count[OF e]) simp
qed

lemma current_step_skips:
  assumes "current_ids rec = Inr (c, s)" "\<not> (truthy c \<and> truthy s)"
  shows "current_step p raw rec = Inr raw"
  using assms by (auto simp: current_step_def bnd_def)

lemma group_count_nil: "group_count [] k = 0"
  by (simp add: group_count_def)

subsection \<open>Coercion in the legacy path\<close>

text \<open>
  C8. In the legacy path (android, version 1) a response check with
  \<open>responded = "Yes"\<close> and \<open>responseTime = "120"\<close> is normalized to
  \<open>responded = True\<close> and \<open>responseTime = 120\<close>: the record that holds it is one the
  query of the legacy path returns, and the loop body stores the coerced entry in the
  record's group. Whatever entry the coercion returns, neither of the two fields is a
  string any more.
\<close>

theorem legacy_coercion:
  "legacy_step [] legacy_record =
     Inr [((JStr ''android'', JStr ''C1'', JStr ''S1''),
           \<lparr>g_count = 1,
            g_response_checks = [JObj [(''responded'', JBool True), (''responseTime'', JInt 120)]],
            g_survey_results = []\<rparr>)]
   \<and> find_diagnostic [legacy_record] 0 ''android'' (\<lambda>v. v = 1) = [legacy_record]
   \<and> (\<forall>r r' s. coerce_check r = Inr r' \<longrightarrow>
         getitem r' ''responded'' \<noteq> Inr (JStr s) \<and> getitem r' ''responseTime'' \<noteq> Inr (JStr s))"
proof (intro conjI)
  show "find_diagnostic [legacy_record] 0 ''android'' (\<lambda>v. v = 1) = [legacy_record]"
    by (simp add: find_diagnostic_def doc_matches_def matches_def match_eq_def match_pred_def
        bson_eq_def legacy_record_def)
next
  show "legacy_step [] legacy_record =
     Inr [((JStr ''android'', JStr ''C1'', JStr ''S1''),
           \<lparr>g_count = 1,
            g_response_checks = [JObj [(''responded'', JBool True), (''responseTime'', JInt 120)]],
            g_survey_results = []\<rparr>)]"
    by (simp add: legacy_step_def legacy_ids_def legacy_record_def empty_dict_def bnd_def
      is_response_check_def coerce_check_def py_int_120 rs_ensure_def key_hashable_def
      empty_group_def key_eq_def py_eq_def)
next
  show "\<forall>r r' s. coerce_check r = Inr r' \<longrightarrow>
         getitem r' ''responded'' \<noteq> Inr (JStr s) \<and> getitem r' ''responseTime'' \<noteq> Inr (JStr s)"
    using coerce_check_native by blast
qed

theorem legacy_coercion_witness:
  "coerce_check (JObj [(''responded'', JStr ''Yes''), (''responseTime'', JStr ''120'')])
     = Inr (JObj [(''responded'', JBool True), (''responseTime'', JInt 120)])
   \<and> getitem (JObj [(''responded'', JBool True), (''responseTime'', JInt 120)]) ''responseTime''
       \<noteq> Inr (JStr ''120'')
   \<and> (\<exists>raw. legacy_step [] legacy_record = Inr raw \<and> length raw = 1)"
proof -
  have c: "coerce_check (JObj [(''responded'', JStr ''Yes''), (''responseTime'', JStr ''120'')])
     = Inr (JObj [(''responded'', JBool True), (''responseTime'', JInt 120)])"
    by (simp add: coerce_check_def bnd_def py_int_120)
  from legacy_coercion c show ?thesis by auto
qed

subsection \<open>Which records are aggregated\<close>

text \<open>
  C2, as amended. In either extraction path a record is left out of the aggregation,
  changing no group and raising no error, exactly when at least one of the two identifiers
  (propagation channel, sponsor) is missing or falsy; a record carrying both is counted in
  the group of its platform, channel and sponsor whenever its extraction raises no error.
\<close>

theorem exclusion_rule:
  "(legacy_ids rec = Inr (c, s) \<longrightarrow>
      (if truthy c \<and> truthy s
       then \<forall>raw'. legacy_step raw rec = Inr raw' \<longrightarrow>
              group_count raw' (JStr ''android'', c, s) = group_count raw (JStr ''android'', c, s) + 1
       else legacy_step raw rec = Inr raw))
   \<and> (current_ids rec = Inr (c, s) \<longrightarrow>
      (if truthy c \<and> truthy s
       then \<forall>raw'. current_step p raw rec = Inr raw' \<longrightarrow>
              group_count raw' (p, c, s) = group_count raw (p, c, s) + 1
       else current_step p raw rec = Inr raw))"
proof (intro conjI impI)
  assume ids: "legacy_ids rec = Inr (c, s)"
  show "if truthy c \<and> truthy s
       then \<forall>raw'. legacy_step raw rec = Inr raw' \<longrightarrow>
              group_count raw' (JStr ''android'', c, s) = group_count raw (JStr ''android'', c, s) + 1
       else legacy_step raw rec = Inr raw"
  proof (cases "truthy c \<and> truthy s")
    case True
    then show ?thesis using legacy_step_counts[OF ids] by simp
  next
    case False
    then show ?thesis using legacy_step_skips[OF ids] by simp
  qed
next
  assume ids: "current_ids rec = Inr (c, s)"
  show "if truthy c \<and> truthy s
       then \<forall>raw'. current_step p raw rec = Inr raw' \<longrightarrow>
              group_count raw' (p, c, s) = group_count raw (p, c, s) + 1
       else current_step p raw rec = Inr raw"
  proof (cases "truthy c \<and> truthy s")
    case True
    then show ?thesis using current_step_counts[OF ids] by simp
  next
    case False
    then show ?thesis using current_step_skips[OF ids] by simp
  qed
qed

theorem exclusion_rule_witness:
  "(\<exists>raw'. legacy_step [] legacy_record = Inr raw'
        \<and> group_count raw' (JStr ''android'', JStr ''C1'', JStr ''S1'') = 1)
   \<and> legacy_step [] channel_only_legacy = Inr []
   \<and> (\<exists>raw'. current_step (JStr ''windows'') [] current_record = Inr raw'
        \<and> group_count raw' (JStr ''windows'', JStr ''C1'', JStr ''S1'') = 1)
   \<and> current_step (JStr ''windows'') [] channel_only_current = Inr []"
proof -
  have i1: "legacy_ids legacy_record = Inr (JStr ''C1'', JStr ''S1'')"
    by (simp add: legacy_ids_def legacy_record_def empty_dict_def bnd_def)
  have i2: "legacy_ids channel_only_legacy = Inr (JStr ''C1'', JNull)"
    by (simp add: legacy_ids_def channel_only_legacy_def empty_dict_def bnd_def)
  have i3: "current_ids current_record = Inr (JStr ''C1'', JStr ''S1'')"
    by (simp add: current_ids_def current_record_def empty_dict_def bnd_def)
  have i4: "current_ids channel_only_current = Inr (JStr ''C1'', JNull)"
    by (simp add: current_ids_def channel_only_current_def empty_dict_def bnd_def)
  obtain r1 where r1: "legacy_step [] legacy_record = Inr r1"
    by (simp add: legacy_step_def legacy_ids_def empty_dict_def legacy_record_def bnd_def is_response_check_def
        coerce_check_def py_int_120 rs_ensure_def key_hashable_def)
  obtain r3 where r3: "current_step (JStr ''windows'') [] current_record = Inr r3"
    by (simp add: current_step_def current_ids_def current_record_def bnd_def is_response_check_def
        survey_of_def empty_dict_def rs_ensure_def key_hashable_def)
  from exclusion_rule[of legacy_record "JStr ''C1''" "JStr ''S1''" "[]"] i1 r1
  have a: "group_count r1 (JStr ''android'', JStr ''C1'', JStr ''S1'') = 1"
    by (simp add: group_count_nil)
  from exclusion_rule[of channel_only_legacy "JStr ''C1''" JNull "[]"] i2
  have b: "legacy_step [] channel_only_legacy = Inr []" by simp
  from exclusion_rule[of current_record "JStr ''C1''" "JStr ''S1''" "[]" "JStr ''windows''"] i3 r3
  have c: "group_count r3 (JStr ''windows'', JStr ''C1'', JStr ''S1'') = 1"
    by (simp add: group_count_nil)
  from exclusion_rule[of channel_only_current "JStr ''C1''" JNull "[]" "JStr ''windows''"] i4
  have d: "current_step (JStr ''windows'') [] channel_only_current = Inr []" by simp
  from r1 a b r3 c d show ?thesis by blast
qed

text \<open>
  C2 as stated fails: a record with a propagation channel id and no sponsor id is left out,
  in the legacy path and in the current one.
\<close>

theorem exclusion_counterexample:
  "legacy_ids channel_only_legacy = Inr (JStr ''C1'', JNull)
   \<and> legacy_step [] channel_only_legacy = Inr []
   \<and> current_ids channel_only_current = Inr (JStr ''C1'', JNull)
   \<and> current_step (JStr ''windows'') [] channel_only_current = Inr []"
  by (simp add: legacy_ids_def legacy_step_def current_ids_def current_step_def
      channel_only_legacy_def channel_only_current_def empty_dict_def bnd_def)

subsection \<open>Response blacklist\<close>

lemma find_None_filter: "find P xs = None \<longleftrightarrow> filter P xs = []"
  by (induction xs) auto

lemma find_Some_filter: "find P xs = Some x \<Longrightarrow> filter P xs \<noteq> [] \<and> P x"
  by (induction xs) (auto split: if_splits)

lemma matches_truthy: "matches (k # ks) q d \<Longrightarrow> truthy d"
  by (cases d) (auto simp: matches_def field_def split: option.splits)

lemma matches_new_entry:
  "matches [''address''] (JStr b)
     (JObj [(''_id'', i), (''address'', JStr a), (''datetime'', t)]) \<longleftrightarrow> a = b"
  by (auto simp: matches_def field_def match_eq_def bson_eq_def)

lemma check_add_fresh:
  assumes "entries_for a st = []"
  shows "check_and_add_response_address_blacklist a now st =
           (False, st\<lparr>response_blacklist := response_blacklist st @
                 [JObj [(''_id'', JOid (next_oid st)), (''address'', JStr a), (''datetime'', JDate now)]],
              next_oid := Suc (next_oid st)\<rparr>)"
  using assms
  by (simp add: check_and_add_response_address_blacklist_def entries_for_def find_None_filter[symmetric])

lemma check_add_known:
  assumes "entries_for a st \<noteq> []"
  shows "check_and_add_response_address_blacklist a now st = (True, st)"
proof -
  from assms obtain m where m: "find (matches [''address''] (JStr a)) (response_blacklist st) = Some m"
    by (cases "find (matches [''address''] (JStr a)) (response_blacklist st)")
       (auto simp: entries_for_def find_None_filter)
  from find_Some_filter[OF m] have "truthy m" using matches_truthy by blast
  with m show ?thesis by (simp add: check_and_add_response_address_blacklist_def)
qed

lemma entries_after_check:
  "entries_for b (snd (check_and_add_response_address_blacklist a now st)) =
     (if entries_for a st = [] \<and> a = b
      then entries_for b st @ [JObj [(''_id'', JOid (next_oid st)), (''address'', JStr a), (''datetime'', JDate now)]]
      else entries_for b st)"
proof (cases "entries_for a st = []")
  case True
  show ?thesis
    using True by (auto simp: check_add_fresh[OF True] entries_for_def matches_new_entry)
next
  case False
  show ?thesis by (simp add: check_add_known[OF False] False)
qed

lemma no_duplicates_check:
  assumes "no_duplicates st"
  shows "no_duplicates (snd (check_and_add_response_address_blacklist a now st))"
  unfolding no_duplicates_def
proof
  fix b
  from assms have "length (entries_for b st) \<le> 1" by (simp add: no_duplicates_def)
  then show "length (entries_for b (snd (check_and_add_response_address_blacklist a now st))) \<le> 1"
    by (auto simp: entries_after_check)
qed

lemma entries_purge:
  "entries_for b (ttl_purge now st) =
     filter (\<lambda>d. \<not> expired BLACKLIST_LIFETIME_SECS now d) (entries_for b st)"
  by (auto simp: entries_for_def ttl_purge_def intro: filter_cong)

lemma no_duplicates_purge:
  assumes "no_duplicates st"
  shows "no_duplicates (ttl_purge now st)"
  unfolding no_duplicates_def
proof
  fix b
  from assms have "length (entries_for b st) \<le> 1" by (simp add: no_duplicates_def)
  moreover have "length (entries_for b (ttl_purge now st)) \<le> length (entries_for b st)"
    by (simp add: entries_purge)
  ultimately show "length (entries_for b (ttl_purge now st)) \<le> 1" by linarith
qed

lemma no_duplicates_run: "no_duplicates st \<Longrightarrow> no_duplicates (blacklist_run ops st)"
proof (induction ops arbitrary: st)
  case Nil
  then show ?case by simp
next
  case (Cons op ops)
  then show ?case
    by (cases op) (simp_all add: no_duplicates_check no_duplicates_purge)
qed

text \<open>
  C6. When the blacklist holds no entry for an address, and no address twice, the first
  \<open>check_and_add_response_address_blacklist\<close> for it returns \<open>False\<close> and leaves
  exactly one entry for the address; the call that follows returns \<open>True\<close> and changes
  nothing; and whatever calls and expiries of the retention window come after, no address
  ever has two entries.
\<close>

theorem blacklist_check_and_add:
  assumes "no_duplicates st" and "entries_for a st = []"
  shows "fst (check_and_add_response_address_blacklist a now st) = False
       \<and> length (entries_for a (snd (check_and_add_response_address_blacklist a now st))) = 1
       \<and> check_and_add_response_address_blacklist a now'
            (snd (check_and_add_response_address_blacklist a now st))
           = (True, snd (check_and_add_response_address_blacklist a now st))
       \<and> no_duplicates (blacklist_run ops st)"
proof -
  have 1: "fst (check_and_add_response_address_blacklist a now st) = False"
    by (simp add: check_add_fresh[OF assms(2)])
  have 2: "length (entries_for a (snd (check_and_add_response_address_blacklist a now st))) = 1"
    by (simp add: entries_after_check assms(2))
  then have "entries_for a (snd (check_and_add_response_address_blacklist a now st)) \<noteq> []"
    by auto
  from check_add_known[OF this] 1 2 no_duplicates_run[OF assms(1)] show ?thesis by simp
qed

lemma no_duplicates_empty: "no_duplicates empty_store"
  by (simp add: no_duplicates_def entries_for_def empty_store_def)

theorem blacklist_check_and_add_witness:
  "fst (check_and_add_response_address_blacklist ''a@example.com'' 100 empty_store) = False
   \<and> check_and_add_response_address_blacklist ''a@example.com'' 101
        (snd (check_and_add_response_address_blacklist ''a@example.com'' 100 empty_store))
       = (True, snd (check_and_add_response_address_blacklist ''a@example.com'' 100 empty_store))
   \<and> no_duplicates (blacklist_run
        [CheckAdd ''a@example.com'' 100, CheckAdd ''a@example.com'' 101, Purge 90000,
         CheckAdd ''a@example.com'' 90001] empty_store)"
proof -
  have e: "entries_for ''a@example.com'' empty_store = []"
    by (simp add: entries_for_def empty_store_def)
  from blacklist_check_and_add[OF no_duplicates_empty e] show ?thesis by blast
qed

subsection \<open>Duplicate diagnostic records\<close>

lemma feedback_id_of:
  assumes "path_value obj [''Metadata'', ''id''] = Some v"
  shows "bnd (dict_get obj ''Metadata'' empty_dict) (\<lambda>md. bnd (dict_get md ''id'' JNull) f) = f v"
proof -
  from assms obtain md where md: "field obj ''Metadata'' = Some md" and v: "field md ''id'' = Some v"
    by (auto split: option.splits)
  from md obtain kvs where "obj = JObj kvs" "map_of kvs ''Metadata'' = Some md"
    by (cases obj) (auto simp: field_def)
  moreover from v obtain mkvs where "md = JObj mkvs" "map_of mkvs ''id'' = Some v"
    by (cases md) (auto simp: field_def)
  ultimately show ?thesis by (simp add: bnd_def)
qed

lemma stored_doc_matches:
  assumes "path_value (JObj kvs) [''Metadata'', ''id''] = Some v"
  shows "matches [''Metadata'', ''id''] v
           (JObj ((''_id'', i) # AList.update ''datetime'' t kvs))"
proof -
  from assms obtain md where md: "map_of kvs ''Metadata'' = Some md" and v: "field md ''id'' = Some v"
    by (auto simp: field_def split: option.splits)
  from v obtain mkvs where m: "md = JObj mkvs" "map_of mkvs ''id'' = Some v"
    by (cases md) (auto simp: field_def)
  have "path_values (JObj ((''_id'', i) # AList.update ''datetime'' t kvs)) [''Metadata'', ''id''] = [v]"
    using md m by (simp add: update_conv')
  then show ?thesis by (simp add: matches_def match_eq_def bson_eq_def)
qed

lemma insert_new:
  assumes "map_of kvs ''_id'' = None"
    and "path_value (JObj kvs) [''Metadata'', ''id''] = Some (JStr fid)"
    and "stored_with_id (JStr fid) st = []"
  shows "insert_diagnostic_info (JObj kvs) now st =
           Inr (Some (JOid (next_oid st)),
                st\<lparr>diagnostic_info := diagnostic_info st @
                      [JObj ((''_id'', JOid (next_oid st)) # AList.update ''datetime'' (JDate now) kvs)],
                   next_oid := Suc (next_oid st)\<rparr>)"
proof -
  have f: "find (matches [''Metadata'', ''id''] (JStr fid)) (diagnostic_info st) = None"
    using assms(3) by (simp add: stored_with_id_def find_None_filter)
  have u: "map_of (AList.update ''datetime'' (JDate now) kvs) ''_id'' = None"
    using assms(1) by (simp add: update_conv')
  show ?thesis
    unfolding insert_diagnostic_info_def feedback_id_of[OF assms(2)]
    by (simp add: f u insert_one_def bnd_def)
qed

lemma insert_duplicate:
  assumes "path_value obj [''Metadata'', ''id''] = Some (JStr fid)"
    and "stored_with_id (JStr fid) st \<noteq> []"
  shows "insert_diagnostic_info obj now st =
           Inr (None, st\<lparr>log := log st @ [DuplicateId (JStr fid)]\<rparr>)"
proof -
  from assms(2) obtain doc where
    "find (matches [''Metadata'', ''id''] (JStr fid)) (diagnostic_info st) = Some doc"
    by (cases "find (matches [''Metadata'', ''id''] (JStr fid)) (diagnostic_info st)")
       (auto simp: stored_with_id_def find_None_filter)
  then show ?thesis
    unfolding insert_diagnostic_info_def feedback_id_of[OF assms(1)] by simp
qed

text \<open>
  C7. A record whose \<open>Metadata.id\<close> is a string and which carries no \<open>_id\<close> of its own is
  inserted twice, into a store where the id is held by at most one document. Both calls
  return normally; the second returns \<open>None\<close>, leaves the stored documents as they were and
  adds the duplicate-id entry to the log; and exactly one stored document has the id.
\<close>

theorem duplicate_insert_rejected:
  assumes "map_of kvs ''_id'' = None"
    and "path_value (JObj kvs) [''Metadata'', ''id''] = Some (JStr fid)"
    and "path_value obj2 [''Metadata'', ''id''] = Some (JStr fid)"
    and "length (stored_with_id (JStr fid) st) \<le> 1"
  shows "\<exists>r1 st1 st2.
           insert_diagnostic_info (JObj kvs) now st = Inr (r1, st1)
         \<and> insert_diagnostic_info obj2 now2 st1 = Inr (None, st2)
         \<and> diagnostic_info st2 = diagnostic_info st1
         \<and> log st2 = log st1 @ [DuplicateId (JStr fid)]
         \<and> length (stored_with_id (JStr fid) st2) = 1"
proof (cases "stored_with_id (JStr fid) st = []")
  case True
  let ?doc = "JObj ((''_id'', JOid (next_oid st)) # AList.update ''datetime'' (JDate now) kvs)"
  let ?st1 = "st\<lparr>diagnostic_info := diagnostic_info st @ [?doc], next_oid := Suc (next_oid st)\<rparr>"
  have 1: "insert_diagnostic_info (JObj kvs) now st = Inr (Some (JOid (next_oid st)), ?st1)"
    by (rule insert_new[OF assms(1,2) True])
  have s1: "stored_with_id (JStr fid) ?st1 = [?doc]"
    using True stored_doc_matches[OF assms(2)] by (simp add: stored_with_id_def)
  then have ne: "stored_with_id (JStr fid) ?st1 \<noteq> []" by simp
  have 2: "insert_diagnostic_info obj2 now2 ?st1 =
             Inr (None, ?st1\<lparr>log := log ?st1 @ [DuplicateId (JStr fid)]\<rparr>)"
    by (rule insert_duplicate[OF assms(3) ne])
  have 3: "length (stored_with_id (JStr fid) (?st1\<lparr>log := log ?st1 @ [DuplicateId (JStr fid)]\<rparr>)) = 1"
    using s1 by (simp add: stored_with_id_def)
  show ?thesis
    by (rule exI[of _ "Some (JOid (next_oid st))"], rule exI[of _ ?st1],
        rule exI[of _ "?st1\<lparr>log := log ?st1 @ [DuplicateId (JStr fid)]\<rparr>"])
       (use 1 2 3 in simp)
next
  case False
  let ?st1 = "st\<lparr>log := log st @ [DuplicateId (JStr fid)]\<rparr>"
  have 1: "insert_diagnostic_info (JObj kvs) now st = Inr (None, ?st1)"
    by (rule insert_duplicate[OF assms(2) False])
  have ne: "stored_with_id (JStr fid) ?st1 \<noteq> []"
    using False by (simp add: stored_with_id_def)
  have 2: "insert_diagnostic_info obj2 now2 ?st1 =
             Inr (None, ?st1\<lparr>log := log ?st1 @ [DuplicateId (JStr fid)]\<rparr>)"
    by (rule insert_duplicate[OF assms(3) ne])
  have 3: "length (stored_with_id (JStr fid) (?st1\<lparr>log := log ?st1 @ [DuplicateId (JStr fid)]\<rparr>)) = 1"
    using False assms(4) by (cases "stored_with_id (JStr fid) st") (auto simp: stored_with_id_def)
  show ?thesis
    by (rule exI[of _ None], rule exI[of _ ?st1],
        rule exI[of _ "?st1\<lparr>log := log ?st1 @ [DuplicateId (JStr fid)]\<rparr>"])
       (use 1 2 3 in simp)
qed

theorem duplicate_insert_rejected_witness:
  "\<exists>r1 st1 st2.
      insert_diagnostic_info feedback_record 10 empty_store = Inr (r1, st1)
    \<and> insert_diagnostic_info feedback_record 11 st1 = Inr (None, st2)
    \<and> diagnostic_info st2 = diagnostic_info st1
    \<and> log st2 = [DuplicateId (JStr ''0123abcd'')]
    \<and> length (stored_with_id (JStr ''0123abcd'') st2) = 1"
proof -
  let ?kvs = "[(''Metadata'', JObj [(''id'', JStr ''0123abcd''), (''platform'', JStr ''android''),
                           (''version'', JInt 2)]),
      (''Feedback'', JObj [])]"
  have a: "map_of ?kvs ''_id'' = None" by simp
  have b: "path_value (JObj ?kvs) [''Metadata'', ''id''] = Some (JStr ''0123abcd'')"
    by (simp add: field_def)
  have c: "length (stored_with_id (JStr ''0123abcd'') empty_store) \<le> 1"
    by (simp add: stored_with_id_def empty_store_def)
  from duplicate_insert_rejected[OF a b b c, of 10 11] obtain r1 st1 st2 where
    h: "insert_diagnostic_info (JObj ?kvs) 10 empty_store = Inr (r1, st1)"
       "insert_diagnostic_info (JObj ?kvs) 11 st1 = Inr (None, st2)"
       "diagnostic_info st2 = diagnostic_info st1"
       "log st2 = log st1 @ [DuplicateId (JStr ''0123abcd'')]"
       "length (stored_with_id (JStr ''0123abcd'') st2) = 1"
    by blast
  have "insert_diagnostic_info (JObj ?kvs) 10 empty_store =
          Inr (Some (JOid 0), empty_store\<lparr>diagnostic_info :=
             [JObj ((''_id'', JOid 0) # AList.update ''datetime'' (JDate 10) ?kvs)], next_oid := Suc 0\<rparr>)"
    using insert_new[OF a b, of empty_store 10]
    by (simp add: stored_with_id_def empty_store_def)
  with h(1) have "log st1 = []" by (auto simp: empty_store_def)
  with h show ?thesis unfolding feedback_record_def by auto
qed

subsection \<open>Oversized responses\<close>

lemma create_raw_email_length:
  "body \<noteq> [] \<Longrightarrow>
   length (the (create_raw_email r f s body att hs)) =
     length (concat (map header_line ([(''To'', r), (''From'', f), (''Subject'', s)] @ hs)))
       + length (concat (map render_part body))"
  by (simp add: create_raw_email_def)

lemma create_raw_email_truthy:
  "body \<noteq> [] \<Longrightarrow> truthy_str (create_raw_email r f s body att hs)"
  by (simp add: create_raw_email_def truthy_str_def header_line_def)

text \<open>
  C3. When \<open>send_response\<close> is given a plain-text and an HTML body and the message built
  from both is larger than the 10 MiB ceiling, the one message it hands to the transport is
  the message rebuilt from the plain-text part alone, and that message is no larger than the
  first one.
\<close>

theorem oversized_drops_html:
  assumes "truthy_str body_text" and "truthy_str body_html" and "\<not> truthy_list attachments"
    and "SES_EMAIL_SIZE_LIMIT <
           length (the (create_raw_email recipient from_address subject
                          [(''plain'', the body_text), (''html'', the body_html)]
                          attachments (extra_headers_of from_address replyid)))"
  shows "send_response recipient from_address subject body_text body_html replyid attachments =
           Inr (Some (SesSend
                  (the (create_raw_email recipient from_address subject
                          [(''plain'', the body_text)]
                          attachments (extra_headers_of from_address replyid)))
                  from_address recipient))
       \<and> length (the (create_raw_email recipient from_address subject
                          [(''plain'', the body_text)]
                          attachments (extra_headers_of from_address replyid)))
         \<le> length (the (create_raw_email recipient from_address subject
                          [(''plain'', the body_text), (''html'', the body_html)]
                          attachments (extra_headers_of from_address replyid)))"
proof -
  have b: "body_of body_text body_html = [(''plain'', the body_text), (''html'', the body_html)]"
    using assms(1,2) by (simp add: body_of_def)
  have t2: "truthy_str (create_raw_email recipient from_address subject
              [(''plain'', the body_text), (''html'', the body_html)]
              attachments (extra_headers_of from_address replyid))"
    by (rule create_raw_email_truthy) simp
  have t1: "truthy_str (create_raw_email recipient from_address subject
              [(''plain'', the body_text)]
              attachments (extra_headers_of from_address replyid))"
    by (rule create_raw_email_truthy) simp
  have s: "send_response recipient from_address subject body_text body_html replyid attachments =
           Inr (Some (SesSend
                  (the (create_raw_email recipient from_address subject
                          [(''plain'', the body_text)]
                          attachments (extra_headers_of from_address replyid)))
                  from_address recipient))"
    using assms(3,4) t1 t2 by (simp add: send_response_def b list_pop_def bnd_def)
  have l: "length (the (create_raw_email recipient from_address subject
                          [(''plain'', the body_text)]
                          attachments (extra_headers_of from_address replyid)))
         \<le> length (the (create_raw_email recipient from_address subject
                          [(''plain'', the body_text), (''html'', the body_html)]
                          attachments (extra_headers_of from_address replyid)))"
    by (simp add: create_raw_email_length)
  from s l show ?thesis by simp
qed

lemma length_big_text: "length big_text = 10485760"
  by (simp add: big_text_def)

lemma big_text_truthy: "truthy_str (Some big_text)"
  by (simp add: truthy_str_def big_text_def)

theorem oversized_drops_html_witness:
  "send_response ''user@example.com'' ''feedback@example.com'' ''Re: feedback''
      (Some big_text) (Some ''<p>hello</p>'') None (None :: unit list option) =
     Inr (Some (SesSend
            (the (create_raw_email ''user@example.com'' ''feedback@example.com'' ''Re: feedback''
                    [(''plain'', big_text)] (None :: unit list option)
                    (extra_headers_of ''feedback@example.com'' None)))
            ''feedback@example.com'' ''user@example.com''))"
proof -
  have h: "truthy_str (Some ''<p>hello</p>'')" by (simp add: truthy_str_def)
  have a: "\<not> truthy_list (None :: unit list option)" by (simp add: truthy_list_def)
  have big: "SES_EMAIL_SIZE_LIMIT <
           length (the (create_raw_email ''user@example.com'' ''feedback@example.com'' ''Re: feedback''
                          [(''plain'', the (Some big_text)), (''html'', the (Some ''<p>hello</p>''))]
                          (None :: unit list option) (extra_headers_of ''feedback@example.com'' None)))"
    by (simp add: create_raw_email_length render_part_def length_big_text SES_EMAIL_SIZE_LIMIT_def)
  from oversized_drops_html[OF big_text_truthy h a big] show ?thesis by simp
qed

text \<open>
  C10. When \<open>send_response\<close> is given a plain-text body and no HTML body, and the message
  is larger than the 10 MiB ceiling, the part the size step removes is the plain-text part:
  the body is then empty, no message is built from it, and the function returns without a
  call of the transport and without an error.
\<close>

theorem oversized_text_only_dropped:
  assumes "truthy_str body_text" and "\<not> truthy_str body_html" and "\<not> truthy_list attachments"
    and "SES_EMAIL_SIZE_LIMIT <
           length (the (create_raw_email recipient from_address subject
                          [(''plain'', the body_text)]
                          attachments (extra_headers_of from_address replyid)))"
  shows "body_of body_text body_html = [(''plain'', the body_text)]
       \<and> list_pop (body_of body_text body_html) = Inr []
       \<and> create_raw_email recipient from_address subject []
            attachments (extra_headers_of from_address replyid) = None
       \<and> send_response recipient from_address subject body_text body_html replyid attachments
           = Inr None"
proof -
  have b: "body_of body_text body_html = [(''plain'', the body_text)]"
    using assms(1,2) by (simp add: body_of_def)
  have t1: "truthy_str (create_raw_email recipient from_address subject
              [(''plain'', the body_text)]
              attachments (extra_headers_of from_address replyid))"
    by (rule create_raw_email_truthy) simp
  have e: "create_raw_email recipient from_address subject []
            attachments (extra_headers_of from_address replyid) = None"
    by (simp add: create_raw_email_def)
  have s: "send_response recipient from_address subject body_text body_html replyid attachments
           = Inr None"
    using assms(3,4) t1 by (simp add: send_response_def b list_pop_def bnd_def e truthy_str_def)
  from b e s show ?thesis by (simp add: list_pop_def)
qed

theorem oversized_text_only_dropped_witness:
  "send_response ''user@example.com'' ''feedback@example.com'' ''Re: feedback''
      (Some big_text) None (Some ''<id@example.com>'') (None :: unit list option) = Inr None"
proof -
  have h: "\<not> truthy_str None" by (simp add: truthy_str_def)
  have a: "\<not> truthy_list (None :: unit list option)" by (simp add: truthy_list_def)
  have big: "SES_EMAIL_SIZE_LIMIT <
           length (the (create_raw_email ''user@example.com'' ''feedback@example.com'' ''Re: feedback''
                          [(''plain'', the (Some big_text))]
                          (None :: unit list option)
                          (extra_headers_of ''feedback@example.com'' (Some ''<id@example.com>''))))"
    by (simp add: create_raw_email_length render_part_def length_big_text SES_EMAIL_SIZE_LIMIT_def)
  from oversized_text_only_dropped[OF big_text_truthy h a big] show ?thesis by simp
qed

subsection \<open>Autoresponder queue\<close>

lemma map_upd_notin: "c \<notin> set cs \<Longrightarrow> map (f(c := v)) cs = map f cs"
  by (induction cs) auto

lemma mset_concat_upd:
  assumes "c \<in> set cs" and "distinct cs"
  shows "mset (concat (map (f(c := f c @ [d])) cs)) = mset (concat (map f cs)) + {#d#}"
  using assms
proof (induction cs)
  case Nil
  then show ?case by simp
next
  case (Cons x cs)
  show ?case
  proof (cases "x = c")
    case True
    with Cons.prems have "c \<notin> set cs" by simp
    then have m: "map (f(c := f c @ [d])) cs = map f cs" by (rule map_upd_notin)
    have "concat (map (f(c := f c @ [d])) (x # cs))
            = (f c @ [d]) @ concat (map (f(c := f c @ [d])) cs)"
      using True by simp
    also have "\<dots> = (f c @ [d]) @ concat (map f cs)" by (simp only: m)
    finally have eq: "concat (map (f(c := f c @ [d])) (x # cs)) = (f c @ [d]) @ concat (map f cs)" .
    show ?thesis unfolding eq using True by simp
  next
    case False
    with Cons show ?thesis by simp
  qed
qed

lemma distinct_concat_disjoint:
  assumes "distinct (concat (map f cs))" and "c \<in> set cs" and "c' \<in> set cs" and "c \<noteq> c'"
  shows "set (f c) \<inter> set (f c') = {}"
  using assms by (induction cs) auto

lemma ar_next_inv:
  assumes "ar_inv k q s" and "c < k" and "\<forall>d\<in>set q. truthy d"
  shows "ar_inv k q (ar_next c s)"
proof (cases "ar_finished s c")
  case True
  then show ?thesis using assms(1) by (simp add: ar_next_def)
next
  case nf: False
  show ?thesis
  proof (cases "ar_queue s")
    case Nil
    with nf assms(1) show ?thesis
      by (simp add: ar_next_def find_one_and_delete_def ar_inv_def all_yielded_def)
  next
    case (Cons d ds)
    from assms(1) Cons have "d \<in># mset q"
      by (metis ar_inv_def list.set_intros(1) set_mset_mset union_iff)
    with assms(3) have td: "truthy d" by simp
    from assms(1) nf Cons have nofin: "\<forall>c'. \<not> ar_finished s c'" by (auto simp: ar_inv_def)
    have c: "c \<in> set [0..<k]" using assms(2) by simp
    have y: "mset (concat (map ((ar_yielded s)(c := ar_yielded s c @ [d])) [0..<k]))
               = mset (all_yielded k s) + {#d#}"
      unfolding all_yielded_def by (rule mset_concat_upd[OF c]) simp
    from assms(1) Cons have "mset (all_yielded k s) + {#d#} + mset ds = mset q"
      by (simp add: ar_inv_def)
    with y nf td nofin Cons show ?thesis
      by (simp add: ar_next_def find_one_and_delete_def ar_inv_def all_yielded_def)
  qed
qed

lemma ar_next_queue_length:
  assumes "ar_inv k q s" and "\<forall>d\<in>set q. truthy d"
  shows "length (ar_queue (ar_next c s)) = length (ar_queue s) - 1"
proof (cases "ar_queue s")
  case Nil
  then show ?thesis by (simp add: ar_next_def find_one_and_delete_def)
next
  case (Cons d ds)
  with assms(1) have nofin: "\<not> ar_finished s c" by (auto simp: ar_inv_def)
  from assms(1) Cons have "d \<in># mset q"
    by (metis ar_inv_def list.set_intros(1) set_mset_mset union_iff)
  with assms(2) have "truthy d" by simp
  with nofin Cons show ?thesis by (simp add: ar_next_def find_one_and_delete_def)
qed

lemma ar_run_inv:
  assumes "ar_inv k q s" and "\<forall>c\<in>set sched. c < k" and "\<forall>d\<in>set q. truthy d"
  shows "ar_inv k q (ar_run sched s)
       \<and> length (ar_queue (ar_run sched s)) = length (ar_queue s) - length sched"
  using assms(1,2)
proof (induction sched arbitrary: s)
  case Nil
  then show ?case by simp
next
  case (Cons c cs)
  have i: "ar_inv k q (ar_next c s)"
    using ar_next_inv[OF Cons.prems(1) _ assms(3)] Cons.prems(2) by simp
  from Cons.IH[OF i] Cons.prems(2) ar_next_queue_length[OF Cons.prems(1) assms(3), of c]
  show ?case by simp
qed

lemma ar_init_inv: "ar_inv k q (ar_init q)"
  by (simp add: ar_inv_def ar_init_def all_yielded_def)

text \<open>
  C9. Callers \<open>0, \<dots>, k - 1\<close> each run \<open>get_autoresponder_iterator\<close> on a queue of
  distinct, non-empty documents, their loop turns interleaved in any order \<open>sched\<close>, each
  pop being one operation of the store. Then every entry is either still queued or has been
  yielded, none of them twice: not twice to one caller, not to two callers, and not yielded
  while still queued. After as many turns as the queue had entries the queue is empty and
  the yielded entries are the entries of the queue.
\<close>

theorem autoresponder_exactly_once:
  assumes "\<forall>d\<in>set q. truthy d" and "distinct q" and "\<forall>c\<in>set sched. c < k"
  shows "mset (all_yielded k (ar_run sched (ar_init q)))
           + mset (ar_queue (ar_run sched (ar_init q))) = mset q
       \<and> distinct (all_yielded k (ar_run sched (ar_init q)) @ ar_queue (ar_run sched (ar_init q)))
       \<and> (\<forall>c c'. c < k \<and> c' < k \<and> c \<noteq> c' \<longrightarrow>
             set (ar_yielded (ar_run sched (ar_init q)) c)
               \<inter> set (ar_yielded (ar_run sched (ar_init q)) c') = {})
       \<and> (length q \<le> length sched \<longrightarrow>
             ar_queue (ar_run sched (ar_init q)) = []
             \<and> mset (all_yielded k (ar_run sched (ar_init q))) = mset q)"
proof -
  let ?s = "ar_run sched (ar_init q)"
  from ar_run_inv[OF ar_init_inv assms(3,1)]
  have inv: "ar_inv k q ?s" and len: "length (ar_queue ?s) = length q - length sched"
    by (simp_all add: ar_init_def)
  from inv have m: "mset (all_yielded k ?s) + mset (ar_queue ?s) = mset q"
    by (simp add: ar_inv_def)
  then have "mset (all_yielded k ?s @ ar_queue ?s) = mset q" by simp
  with assms(2) have d: "distinct (all_yielded k ?s @ ar_queue ?s)"
    by (metis mset_eq_imp_distinct_iff)
  have disj: "\<forall>c c'. c < k \<and> c' < k \<and> c \<noteq> c' \<longrightarrow>
             set (ar_yielded ?s c) \<inter> set (ar_yielded ?s c') = {}"
  proof (intro allI impI)
    fix c c' assume h: "c < k \<and> c' < k \<and> c \<noteq> c'"
    from d have dc: "distinct (concat (map (ar_yielded ?s) [0..<k]))"
      by (simp add: all_yielded_def)
    from h have "c \<in> set [0..<k]" "c' \<in> set [0..<k]" "c \<noteq> c'" by simp_all
    from distinct_concat_disjoint[OF dc this]
    show "set (ar_yielded ?s c) \<inter> set (ar_yielded ?s c') = {}" .
  qed
  have e: "length q \<le> length sched \<longrightarrow> ar_queue ?s = [] \<and> mset (all_yielded k ?s) = mset q"
    using len m by auto
  from m d disj e show ?thesis by blast
qed

theorem autoresponder_exactly_once_witness:
  "ar_queue (ar_run [0, 1, 0, 1] (ar_init example_queue)) = []
   \<and> mset (all_yielded 2 (ar_run [0, 1, 0, 1] (ar_init example_queue))) = mset example_queue
   \<and> distinct (all_yielded 2 (ar_run [0, 1, 0, 1] (ar_init example_queue)))
   \<and> set (ar_yielded (ar_run [0, 1, 0, 1] (ar_init example_queue)) 0)
        \<inter> set (ar_yielded (ar_run [0, 1, 0, 1] (ar_init example_queue)) 1) = {}"
proof -
  have t: "\<forall>d\<in>set example_queue. truthy d" by (simp add: example_queue_def)
  have d: "distinct example_queue" by (simp add: example_queue_def)
  have c: "\<forall>c\<in>set [0, 1, 0, 1]. c < (2::nat)" by simp
  have l: "length example_queue \<le> length [0::nat, 1, 0, 1]" by (simp add: example_queue_def)
  from autoresponder_exactly_once[OF t d c] l show ?thesis by simp
qed

subsection \<open>Percentiles\<close>

lemma np_percentile_interp:
  "np_percentile xs q = interp (sort xs) (real (length xs - 1) * q / 100)"
  by (simp add: np_percentile_def interp_def Let_def)

lemma interp_bounds:
  assumes "sorted s" and "0 \<le> h" and "h \<le> real (length s - 1)" and "s \<noteq> []"
  shows "s ! nat \<lfloor>h\<rfloor> \<le> interp s h"
    and "interp s h \<le> s ! min (nat \<lfloor>h\<rfloor> + 1) (length s - 1)"
proof -
  let ?lo = "nat \<lfloor>h\<rfloor>" and ?n = "length s"
  let ?hi = "min (?lo + 1) (?n - 1)"
  have lo_le: "?lo \<le> ?n - 1" using assms(2,3) by (simp add: le_nat_floor nat_le_iff floor_le_iff)
  have hi_lt: "?hi < ?n" using assms(4) by (cases s) auto
  have lo_hi: "?lo \<le> ?hi" using lo_le by simp
  have le: "s ! ?lo \<le> s ! ?hi" using assms(1) lo_hi hi_lt by (simp add: sorted_nth_mono)
  have f0: "0 \<le> h - real ?lo" using assms(2) by (simp add: of_nat_nat) 
  have f1: "h - real ?lo \<le> 1" using assms(2) by (simp add: of_nat_nat) linarith
  have a: "0 \<le> (s ! ?hi - s ! ?lo) * (h - real ?lo)" using le f0 by simp
  have "(s ! ?hi - s ! ?lo) * (h - real ?lo) \<le> (s ! ?hi - s ! ?lo) * 1"
    using le f1 by (intro mult_left_mono) simp_all
  then have b: "(s ! ?hi - s ! ?lo) * (h - real ?lo) \<le> s ! ?hi - s ! ?lo" by simp
  show "s ! ?lo \<le> interp s h" using a by (simp add: interp_def Let_def)
  show "interp s h \<le> s ! ?hi" using b by (simp add: interp_def Let_def)
qed

lemma interp_mono:
  assumes "sorted s" and "s \<noteq> []" and "0 \<le> h1" and "h1 \<le> h2" and "h2 \<le> real (length s - 1)"
  shows "interp s h1 \<le> interp s h2"
proof -
  let ?n = "length s"
  let ?l1 = "nat \<lfloor>h1\<rfloor>" and ?l2 = "nat \<lfloor>h2\<rfloor>"
  have l12: "?l1 \<le> ?l2" using assms(3,4) by (simp add: floor_mono nat_mono)
  have l2n: "?l2 \<le> ?n - 1" using assms(3,4,5) by (simp add: le_nat_floor nat_le_iff floor_le_iff)
  show ?thesis
  proof (cases "?l1 = ?l2")
    case True
    let ?hi = "min (?l1 + 1) (?n - 1)"
    have hi_lt: "?hi < ?n" using assms(2) by (cases s) auto
    have "?l1 \<le> ?hi" using l2n True by simp
    then have le: "s ! ?l1 \<le> s ! ?hi" using assms(1) hi_lt by (simp add: sorted_nth_mono)
    have "(s ! ?hi - s ! ?l1) * (h1 - real ?l1) \<le> (s ! ?hi - s ! ?l1) * (h2 - real ?l1)"
      using le assms(4) by (intro mult_left_mono) simp_all
    then show ?thesis using True by (simp add: interp_def Let_def)
  next
    case False
    with l12 have lt: "?l1 + 1 \<le> ?l2" by simp
    have "interp s h1 \<le> s ! min (?l1 + 1) (?n - 1)"
      using interp_bounds(2)[OF assms(1,3) _ assms(2)] assms(4,5) by simp
    also have "\<dots> \<le> s ! ?l2"
    proof -
      have "min (?l1 + 1) (?n - 1) \<le> ?l2" using lt by simp
      moreover have "?l2 < ?n" using l2n assms(2) by (cases s) auto
      ultimately show ?thesis using assms(1) by (simp add: sorted_nth_mono)
    qed
    also have "\<dots> \<le> interp s h2"
      using interp_bounds(1)[OF assms(1) _ assms(5,2)] assms(3,4) by simp
    finally show ?thesis .
  qed
qed

lemma np_percentile_mono:
  assumes "xs \<noteq> []" and "0 \<le> q1" and "q1 \<le> q2" and "q2 \<le> 100"
  shows "np_percentile xs q1 \<le> np_percentile xs q2"
proof -
  let ?n1 = "real (length xs - 1)"
  have s1: "sorted (sort xs)" by simp
  have "length (sort xs) \<noteq> 0" using assms(1) by (simp del: length_0_conv)
  then have s2: "sort xs \<noteq> []" by (simp del: length_sort)
  note s = s1 s2
  have a: "0 \<le> ?n1 * q1 / 100" using assms(2) by simp
  have b: "?n1 * q1 / 100 \<le> ?n1 * q2 / 100"
    using assms(3) by (simp add: mult_left_mono divide_right_mono)
  have "?n1 * q2 / 100 \<le> ?n1 * 100 / 100"
    using assms(4) by (intro divide_right_mono mult_left_mono) simp_all
  then have c: "?n1 * q2 / 100 \<le> real (length (sort xs) - 1)" by simp
  show ?thesis unfolding np_percentile_interp by (rule interp_mono[OF s a b c])
qed

lemma quartiles_sorted:
  assumes "xs \<noteq> []"
  shows "sorted (np_percentiles xs [5, 25, 50, 75, 95])"
  using np_percentile_mono[OF assms, of 5 25] np_percentile_mono[OF assms, of 25 50]
        np_percentile_mono[OF assms, of 50 75] np_percentile_mono[OF assms, of 75 95]
  by (simp add: np_percentiles_def)

lemma np_array_nonempty: "np_array xs = Inr vs \<Longrightarrow> vs \<noteq> []"
  by (auto simp: np_array_def split: option.splits if_splits)

lemma numpy_exact_percentile:
  assumes "numpy_percentile numpy_exact xs qs = Inr ps"
  shows "\<exists>ts. ts \<noteq> [] \<and> ps = np_percentiles ts qs"
proof -
  from assms obtain vs where v: "np_array xs = Inr vs" and p: "ps = np_percentiles vs qs"
    by (auto simp: numpy_exact_def bnd_Inr_iff split: if_splits)
  from np_array_nonempty[OF v] p show ?thesis by blast
qed

lemma stat_of_quartiles:
  assumes "stat_of result_params results = Inr row" and "st_quartiles row = Some qs"
  shows "\<exists>ts. ts \<noteq> [] \<and> qs = np_percentiles ts [5, 25, 50, 75, 95]"
proof -
  from assms obtain rts where
    "if_len rts (\<lambda>ts. numpy_percentile numpy_exact ts [5, 25, 50, 75, 95]) = Inr (Some qs)"
    by (auto simp: stat_of_def stat_of_with_def bnd_Inr_iff)
  then have "numpy_percentile numpy_exact rts [5, 25, 50, 75, 95] = Inr qs"
    by (auto simp: if_len_def bnd_Inr_iff split: if_splits)
  then show ?thesis by (rule numpy_exact_percentile)
qed

lemma percentiles_0_100:
  "np_percentiles [0, 100] [5, 25, 50, 75, 95] = [5, 25, 50, 75, 95]"
  by (simp add: np_percentiles_def np_percentile_def Let_def)

lemma percentile_again: "np_percentile [5, 25, 50, 75, 95] 5 = 9"
  by (simp add: np_percentile_def Let_def)

lemma np_percentile_perm:
  assumes "mset xs = mset ys"
  shows "np_percentile xs q = np_percentile ys q"
proof -
  have "sort xs = sort ys"
    using assms by (intro properties_for_sort) simp_all
  moreover have "length xs = length ys" using assms by (rule mset_eq_length)
  ultimately show ?thesis by (simp add: np_percentile_interp)
qed

text \<open>
  C5, as amended. For any non-empty sample the five percentiles (5th, 25th, 50th, 75th,
  95th, by linear interpolation) are in ascending order, and so are the quartiles of every
  statistics row that has them; they depend on the values of the sample only, not on their
  order, so that computing them again gives the same five numbers. (Computing percentiles
  of the percentiles is a different computation and is not claimed to return them.)
\<close>

theorem quartiles_monotone:
  "(xs \<noteq> [] \<longrightarrow> sorted (np_percentiles xs [5, 25, 50, 75, 95]))
   \<and> (stat_of result_params results = Inr row \<and> st_quartiles row = Some qs
        \<longrightarrow> length qs = 5 \<and> sorted qs)
   \<and> (mset xs = mset ys \<longrightarrow>
        np_percentiles xs [5, 25, 50, 75, 95] = np_percentiles ys [5, 25, 50, 75, 95])"
proof (intro conjI impI)
  assume "xs \<noteq> []"
  then show "sorted (np_percentiles xs [5, 25, 50, 75, 95])" by (rule quartiles_sorted)
next
  assume h: "stat_of result_params results = Inr row \<and> st_quartiles row = Some qs"
  then obtain ts where ts: "ts \<noteq> []" "qs = np_percentiles ts [5, 25, 50, 75, 95]"
    using stat_of_quartiles by blast
  then show "length qs = 5" by (simp add: np_percentiles_def)
  from ts quartiles_sorted show "sorted qs" by simp
next
  assume m: "mset xs = mset ys"
  show "np_percentiles xs [5, 25, 50, 75, 95] = np_percentiles ys [5, 25, 50, 75, 95]"
    unfolding np_percentiles_def
    by (simp only: list.map np_percentile_perm[OF m])
qed

theorem quartiles_monotone_witness:
  "sorted (np_percentiles [120, 80, 100] [5, 25, 50, 75, 95])
   \<and> (\<exists>row qs. stat_of (JStr ''android'', JStr ''C'', JStr ''S'') example_group = Inr row
         \<and> st_quartiles row = Some qs \<and> length qs = 5 \<and> sorted qs)"
proof -
  from example_group_row obtain row qs where
    r: "stat_of (JStr ''android'', JStr ''C'', JStr ''S'') example_group = Inr row"
    and q: "st_quartiles row = Some qs"
    by blast
  have a: "[120, 80, 100] \<noteq> ([] :: real list)" by simp
  from quartiles_monotone[of "[120, 80, 100]" "(JStr ''android'', JStr ''C'', JStr ''S'')"
      example_group row qs "[80, 100, 120]"] a r q
  show ?thesis by blast
qed

text \<open>
  C5 as stated fails where it calls the computation idempotent: the percentiles of the
  sample \<open>[0, 100]\<close> are \<open>[5, 25, 50, 75, 95]\<close>, and the 5th percentile of these five
  values is 9, not 5.
\<close>

theorem percentile_not_idempotent:
  "np_percentiles (np_percentiles [0, 100] [5, 25, 50, 75, 95]) [5, 25, 50, 75, 95]
     \<noteq> np_percentiles [0, 100] [5, 25, 50, 75, 95]"
  by (simp add: percentiles_0_100) (simp add: np_percentiles_def percentile_again)

subsection \<open>Region report\<close>

lemma total_cut_eval:
  "print_table id ''Unique Users'' unique_users_example =
    [''Unique Users'',
     ''        Region     Yesterday  Previous Day     Past Week'',
     ''            US             1             0             0'',
     ''            CA             1             0             0'',
     ''            DE             1             0             0'',
     ''            FR             1             0             0'',
     ''            GB             1             0             0'',
     ''            IR             1             0             0'',
     ''            CN             1             0             0'',
     ''            RU             1             0             0'',
     ''            IN             1             0             0'',
     ''            BR             1             0             0'',
     ''            TR             1             0             0'']"
  by code_simp

lemma scenario_eval:
  "print_table id ''Connections'' connections_example =
    [''Connections'',
     ''        Region     Yesterday  Previous Day     Past Week'',
     ''         Total            30            20            70'',
     ''            US            20            15            50'',
     ''            CA             5             3            10'']"
  by code_simp

lemma page_views_rows:
  "map fst (report_rows [''Yesterday'', ''Previous Day'', ''Past Week'']
              (rev (build_table page_views_example)))
     = [''TR'', ''BR'', ''IN'', ''RU'', ''CN'', ''IR'', ''GB'', ''FR'', ''DE'', ''CA'', ''US'']"
  by code_simp

lemma insort_key_const:
  "\<forall>y\<in>set ys. k y = k x \<Longrightarrow> insort_key k x ys = x # ys"
  by (cases ys) simp_all

lemma sort_key_const: "\<forall>x\<in>set xs. k x = c \<Longrightarrow> sort_key k xs = xs"
  by (induction xs) (simp_all add: insort_key_const)

lemma py_sorted_reverse_ties:
  assumes "\<forall>x\<in>set xs. k x = c"
  shows "py_sorted_reverse k xs = xs"
proof -
  from assms have "\<forall>x\<in>set (rev xs). k x = c" by simp
  then have "sort_key k (rev xs) = rev xs" by (rule sort_key_const)
  then show ?thesis by (simp add: py_sorted_reverse_def)
qed

lemma unique_users_last_column:
  "\<forall>x\<in>set (build_table unique_users_example). get_cell (snd x) ''Past Week'' = Some 0"
  by code_simp

lemma ties_keep_order:
  assumes "mset items = mset (build_table unique_users_example)"
  shows "map fst (report_rows [''Yesterday'', ''Previous Day'', ''Past Week''] items)
           = take 11 (map fst items)"
proof -
  from assms have "set items = set (build_table unique_users_example)" by (rule mset_eq_setD)
  with unique_users_last_column
  have "\<forall>x\<in>set items. get_cell (snd x) ''Past Week'' = Some 0" by simp
  then have "py_sorted_reverse (\<lambda>x. get_cell (snd x) ''Past Week'') items = items"
    by (rule py_sorted_reverse_ties)
  then show ?thesis by (simp add: report_rows_def take_map comp_def)
qed

text \<open>
  C4, at an input where the code leaves the claim. Eleven regions have a unique user
  yesterday and none over the past week, so that every row, the \<open>Total\<close> row too, holds 0
  in the last column. The sort is stable and all keys are equal: the printed rows are the
  first eleven entries of the dict in the order it is iterated, whatever that order is, and
  the \<open>Total\<close> row is missing whenever it is iterated last, as it is when the entries
  come in the order of their insertion. A \<open>NULL\<close> total in the last column (page views
  summed over no rows) sorts below every region and is cut even when the dict is iterated
  with \<open>Total\<close> first. The source's comment reads "top 10 (+1 for the total row)".
\<close>

theorem total_row_cut:
  "print_table id ''Unique Users'' unique_users_example =
    [''Unique Users'',
     ''        Region     Yesterday  Previous Day     Past Week'',
     ''            US             1             0             0'',
     ''            CA             1             0             0'',
     ''            DE             1             0             0'',
     ''            FR             1             0             0'',
     ''            GB             1             0             0'',
     ''            IR             1             0             0'',
     ''            CN             1             0             0'',
     ''            RU             1             0             0'',
     ''            IN             1             0             0'',
     ''            BR             1             0             0'',
     ''            TR             1             0             0'']
   \<and> (\<forall>items. mset items = mset (build_table unique_users_example) \<longrightarrow>
          map fst (report_rows [''Yesterday'', ''Previous Day'', ''Past Week''] items)
            = take 11 (map fst items))
   \<and> map fst (report_rows [''Yesterday'', ''Previous Day'', ''Past Week'']
                 (rev (build_table page_views_example)))
       = [''TR'', ''BR'', ''IN'', ''RU'', ''CN'', ''IR'', ''GB'', ''FR'', ''DE'', ''CA'', ''US'']"
proof (intro conjI)
  show "map fst (report_rows [''Yesterday'', ''Previous Day'', ''Past Week'']
                 (rev (build_table page_views_example)))
       = [''TR'', ''BR'', ''IN'', ''RU'', ''CN'', ''IR'', ''GB'', ''FR'', ''DE'', ''CA'', ''US'']"
    by (rule page_views_rows)
qed (use total_cut_eval ties_keep_order in blast)+

theorem total_row_cut_witness:
  "map fst (report_rows [''Yesterday'', ''Previous Day'', ''Past Week'']
              (build_table unique_users_example))
     = [''US'', ''CA'', ''DE'', ''FR'', ''GB'', ''IR'', ''CN'', ''RU'', ''IN'', ''BR'', ''TR'']"
proof -
  have t: "take 11 (map fst (build_table unique_users_example))
             = [''US'', ''CA'', ''DE'', ''FR'', ''GB'', ''IR'', ''CN'', ''RU'', ''IN'', ''BR'', ''TR'']"
    by code_simp
  from total_row_cut have "map fst (report_rows [''Yesterday'', ''Previous Day'', ''Past Week'']
              (build_table unique_users_example))
     = take 11 (map fst (build_table unique_users_example))"
    by blast
  with t show ?thesis by simp
qed

lemma sort_key_keys: "map k (sort_key k xs) = sort (map k xs)"
  by (rule properties_for_sort[symmetric]) simp_all

lemma sort_key_perm_inj:
  assumes "mset xs = mset ys" and "inj_on k (set xs)"
  shows "sort_key k xs = sort_key k ys"
proof -
  have "mset (map k xs) = mset (map k ys)" using assms(1) by (metis mset_map)
  then have "sort (map k xs) = sort (map k ys)"
    by (intro properties_for_sort) simp_all
  then have m: "map k (sort_key k xs) = map k (sort_key k ys)" by (simp add: sort_key_keys)
  have "set xs = set ys" using assms(1) by (rule mset_eq_setD)
  with assms(2) have "inj_on k (set (sort_key k xs) \<union> set (sort_key k ys))" by simp
  from inj_on_map_eq_map[OF this] m show ?thesis by simp
qed

lemma py_sorted_reverse_perm_inj:
  assumes "mset xs = mset ys" and "inj_on k (set xs)"
  shows "py_sorted_reverse k xs = py_sorted_reverse k ys"
proof -
  have "mset (rev xs) = mset (rev ys)" using assms(1) by simp
  moreover have "inj_on k (set (rev xs))" using assms(2) by simp
  ultimately have "sort_key k (rev xs) = sort_key k (rev ys)" by (rule sort_key_perm_inj)
  then show ?thesis by (simp add: py_sorted_reverse_def)
qed

lemma connections_table:
  "build_table connections_example =
     [(''US'', [(''Yesterday'', Some 20), (''Previous Day'', Some 15), (''Past Week'', Some 50)]),
      (''CA'', [(''Yesterday'', Some 5), (''Previous Day'', Some 3), (''Past Week'', Some 10)]),
      (''Total'', [(''Yesterday'', Some 30), (''Previous Day'', Some 20), (''Past Week'', Some 70)])]"
  by code_simp

lemma connections_keys_inj:
  "inj_on (\<lambda>x. get_cell (snd x) ''Past Week'') (set (build_table connections_example))"
  unfolding connections_table by (simp add: get_cell_def)

text \<open>
  X1. The scenario of the region table: with rows \<open>('US', 50), ('CA', 10)\<close> and total 70
  in the last column, the printed table has the \<open>Total\<close> row with 70 first, then
  \<open>US\<close>, then \<open>CA\<close>, in whatever order the dict is iterated.
\<close>

theorem region_report_scenario:
  assumes "mset (items_order (build_table connections_example))
             = mset (build_table connections_example)"
  shows "print_table items_order ''Connections'' connections_example =
    [''Connections'',
     ''        Region     Yesterday  Previous Day     Past Week'',
     ''         Total            30            20            70'',
     ''            US            20            15            50'',
     ''            CA             5             3            10'']"
proof -
  have c: "last (map fst connections_example) = ''Past Week''"
    by (simp add: connections_example_def)
  have "py_sorted_reverse (\<lambda>x. get_cell (snd x) ''Past Week'') (build_table connections_example)
          = py_sorted_reverse (\<lambda>x. get_cell (snd x) ''Past Week'')
              (items_order (build_table connections_example))"
    by (rule py_sorted_reverse_perm_inj[OF assms[symmetric] connections_keys_inj])
  then have "report_rows (map fst connections_example) (items_order (build_table connections_example))
           = report_rows (map fst connections_example) (id (build_table connections_example))"
    by (simp add: report_rows_def c)
  then have "print_table items_order ''Connections'' connections_example
           = print_table id ''Connections'' connections_example"
    by (simp add: print_table_def Let_def)
  then show ?thesis by (simp only: scenario_eval)
qed

theorem region_report_scenario_witness:
  "print_table rev ''Connections'' connections_example =
    [''Connections'',
     ''        Region     Yesterday  Previous Day     Past Week'',
     ''         Total            30            20            70'',
     ''            US            20            15            50'',
     ''            CA             5             3            10'']"
  by (rule region_report_scenario) simp

lemma py_sorted_reverse_mset: "mset (py_sorted_reverse k xs) = mset xs"
  by (simp add: py_sorted_reverse_def)

lemma py_sorted_reverse_sorted: "sorted (rev (map k (py_sorted_reverse k xs)))"
  by (simp add: py_sorted_reverse_def rev_map)

lemma take_sorted_desc:
  assumes "sorted (rev zs)"
  shows "sorted (rev (take n zs))"
proof -
  have "rev (take n zs) = drop (length zs - n) (rev zs)" by (simp add: rev_take)
  with assms show ?thesis by (simp add: sorted_wrt_drop)
qed

lemma top_rows_sorted: "sorted (rev (map k (take n (py_sorted_reverse k xs))))"
  using take_sorted_desc[OF py_sorted_reverse_sorted, of n k xs] by (simp add: take_map)

lemma kept_in_top:
  assumes "e \<in> set xs" and "length (filter (\<lambda>x. k e \<le> k x) xs) \<le> n"
  shows "e \<in> set (take n (py_sorted_reverse k xs))"
proof -
  let ?ys = "py_sorted_reverse k xs"
  have m: "mset ?ys = mset xs" by (rule py_sorted_reverse_mset)
  then have "e \<in> set ?ys" using assms(1) by (metis mset_eq_setD)
  then obtain as bs where ys: "?ys = as @ e # bs" by (auto dest: split_list)
  have "sorted (rev (map k (as @ e # bs)))" using py_sorted_reverse_sorted[of k xs] ys by simp
  then have ge: "\<forall>a\<in>set as. k e \<le> k a" by (auto simp: sorted_append)
  have "length (filter (\<lambda>x. k e \<le> k x) ?ys) = length (filter (\<lambda>x. k e \<le> k x) xs)"
  proof -
    have "mset (filter (\<lambda>x. k e \<le> k x) ?ys) = mset (filter (\<lambda>x. k e \<le> k x) xs)"
      using m by (simp only: mset_filter)
    then show ?thesis by (rule mset_eq_length)
  qed
  moreover have "filter (\<lambda>x. k e \<le> k x) as = as" using ge by (simp add: filter_id_conv)
  then have "length as + 1 \<le> length (filter (\<lambda>x. k e \<le> k x) ?ys)" by (simp add: ys)
  ultimately have "length as < n" using assms(2) by simp
  then obtain j where j: "n - length as = Suc j" by (cases "n - length as") auto
  show ?thesis unfolding ys by (simp add: j)
qed

text \<open>
  X2. What the region report guarantees for any query results: at most eleven rows are
  printed, in descending order of the last column's value; and a row of the merged table,
  the \<open>Total\<close> row in particular, is among them whenever at most eleven rows (itself
  included) have a last-column value at least as large as its own.
\<close>

theorem region_report_order:
  "length (report_rows columns items) \<le> 11
   \<and> sorted (rev (map (\<lambda>x. get_cell (snd x) (last columns))
                 (take 11 (py_sorted_reverse (\<lambda>x. get_cell (snd x) (last columns)) items))))
   \<and> (e \<in> set items
        \<and> length (filter (\<lambda>x. get_cell (snd e) (last columns) \<le> get_cell (snd x) (last columns))
                    items) \<le> 11
      \<longrightarrow> fst e \<in> set (map fst (report_rows columns items)))"
proof (intro conjI impI)
  show "length (report_rows columns items) \<le> 11" by (simp add: report_rows_def)
  show "sorted (rev (map (\<lambda>x. get_cell (snd x) (last columns))
                 (take 11 (py_sorted_reverse (\<lambda>x. get_cell (snd x) (last columns)) items))))"
    by (rule top_rows_sorted)
next
  assume h: "e \<in> set items
        \<and> length (filter (\<lambda>x. get_cell (snd e) (last columns) \<le> get_cell (snd x) (last columns))
                    items) \<le> 11"
  then have "e \<in> set (take 11 (py_sorted_reverse (\<lambda>x. get_cell (snd x) (last columns)) items))"
    by (intro kept_in_top) simp_all
  then show "fst e \<in> set (map fst (report_rows columns items))"
    by (force simp: report_rows_def)
qed

theorem region_report_order_witness:
  "''Total'' \<in> set (map fst (report_rows [''Yesterday'', ''Previous Day'', ''Past Week'']
                               (rev (build_table connections_example))))"
proof -
  let ?e = "(''Total'', [(''Yesterday'', Some 30), (''Previous Day'', Some 20), (''Past Week'', Some (70::int))])"
  have a: "?e \<in> set (rev (build_table connections_example))"
    unfolding connections_table by simp
  have b: "length (filter (\<lambda>x. get_cell (snd ?e) (last [''Yesterday'', ''Previous Day'', ''Past Week''])
                  \<le> get_cell (snd x) (last [''Yesterday'', ''Previous Day'', ''Past Week'']))
             (rev (build_table connections_example))) \<le> 11"
    by (rule order_trans[OF length_filter_le]) (simp add: connections_table)
  from region_report_order[of "[''Yesterday'', ''Previous Day'', ''Past Week'']"
      "rev (build_table connections_example)" ?e] a b
  show ?thesis by simp
qed

end
